theory Spec2Isabelle
  imports Main "HOL-Library.Sublist" "HOL-Library.AList"
begin

section \<open>Go strings\<close>

text \<open>
  A Go \<open>string\<close> is a sequence of bytes, which is what \<^typ>\<open>string\<close> is here.
  \<open>fmt.Sprintf\<close> with \<open>%s\<close> verbs only is concatenation and is written out with \<open>@\<close>.
  The characters that cannot be written inside a string literal get a name.
\<close>

definition quote :: char where
  "quote = CHR 0x27"

definition backslash :: char where
  "backslash = CHR 0x5C"

definition backtick :: char where
  "backtick = CHR 0x60"

definition newline :: char where
  "newline = CHR 0x0A"

text \<open>\<open>strings.Join(elems, sep)\<close>.\<close>

fun strings_Join :: "string list \<Rightarrow> string \<Rightarrow> string" where
  "strings_Join [] sep = []"
| "strings_Join [x] sep = x"
| "strings_Join (x # y # ys) sep = x @ sep @ strings_Join (y # ys) sep"

text \<open>
  \<open>strings.ReplaceAll(s, old, new)\<close> for a non-empty \<open>old\<close>: the non-overlapping
  occurrences of \<open>old\<close> are replaced from left to right. Both calls in the source pass
  a non-empty pattern; the equations say nothing about an empty one.
\<close>

fun strings_ReplaceAll :: "string \<Rightarrow> string \<Rightarrow> string \<Rightarrow> string" where
  "strings_ReplaceAll [] (p # ps) new = []"
| "strings_ReplaceAll (c # cs) (p # ps) new =
     (if prefix (p # ps) (c # cs)
      then new @ strings_ReplaceAll (drop (length (p # ps)) (c # cs)) (p # ps) new
      else c # strings_ReplaceAll cs (p # ps) new)"

text \<open>
  \<open>strings.ToLower\<close> belongs to Go's library and not to this file: the functions
  that call it take it as the parameter \<open>ToLower\<close>. Where a property depends on what
  it returns, the property asks for what the library does on ASCII text
  (\<open>lowers_ascii\<close>): there the bytes \<open>A\<close> to \<open>Z\<close> move to \<open>a\<close> to \<open>z\<close> and every
  other byte stays. What it does to text with bytes from \<open>0x80\<close> up, where it decodes
  UTF-8 and applies the Unicode mapping, is left open.
\<close>

definition toLower_byte :: "char \<Rightarrow> char" where
  "toLower_byte c =
     (let n = (of_char c :: nat) in if 65 \<le> n \<and> n \<le> 90 then char_of (n + 32) else c)"

definition asciiToLower :: "string \<Rightarrow> string" where
  "asciiToLower s = map toLower_byte s"

definition isASCII :: "string \<Rightarrow> bool" where
  "isASCII s = list_all (\<lambda>c. (of_char c :: nat) < 128) s"

definition lowers_ascii :: "(string \<Rightarrow> string) \<Rightarrow> bool" where
  "lowers_ascii ToLower = (\<forall>s. isASCII s \<longrightarrow> ToLower s = asciiToLower s)"

section \<open>The data model\<close>

text \<open>
  \<open>SqlColumnInfo\<close> and \<open>SqlTableInfo\<close> of \<open>catalog/resource_sql_table.go\<close>. The
  fields of a column carry the prefix \<open>ci_\<close> because both structs have a \<open>Name\<close> and a
  \<open>Comment\<close>. The fields \<open>Owner\<close>, \<open>exec\<close> and \<open>sqlExec\<close> are read by no function
  modelled here and are left out.

  A value of type \<open>map[string]string\<close> is either \<open>nil\<close> (\<open>None\<close>) or a map, given by
  its entries with pairwise distinct keys, listed in the order in which the one
  \<open>range\<close> statement that visits the map meets them (Go fixes no order, so every order
  is a possible input). A slice compared with \<open>reflect.DeepEqual\<close> keeps the
  difference between \<open>nil\<close> and empty in the same way; the other slices are only
  measured, joined and ranged over, where \<open>nil\<close> and empty behave alike, and are lists.
\<close>

record SqlColumnInfo =
  ci_Name :: string
  ci_Type :: string
  ci_Comment :: string
  ci_Nullable :: bool

type_synonym gomap = "(string \<times> string) list option"

record SqlTableInfo =
  Name :: string
  CatalogName :: string
  SchemaName :: string
  TableType :: string
  DataSourceFormat :: string
  ColumnInfos :: "SqlColumnInfo list"
  Partitions :: "string list"
  ClusterKeys :: "string list option"
  StorageLocation :: string
  StorageCredentialName :: string
  ViewDefinition :: string
  Comment :: string
  Properties :: gomap
  Options :: gomap
  ClusterID :: string
  WarehouseID :: string

text \<open>\<open>len(m)\<close>, the entries a \<open>range\<close> over \<open>m\<close> visits, and \<open>_, ok := m[key]\<close>.\<close>

definition map_len :: "gomap \<Rightarrow> nat" where
  "map_len m = (case m of None \<Rightarrow> 0 | Some es \<Rightarrow> length es)"

definition map_range :: "gomap \<Rightarrow> (string \<times> string) list" where
  "map_range m = (case m of None \<Rightarrow> [] | Some es \<Rightarrow> es)"

definition map_has :: "gomap \<Rightarrow> string \<Rightarrow> bool" where
  "map_has m key = (map_of (map_range m) key \<noteq> None)"

text \<open>
  \<open>reflect.DeepEqual\<close> on two maps: both \<open>nil\<close> or both not, the same length, and
  every key of the first bound to the same value in the second.
\<close>

definition map_DeepEqual :: "gomap \<Rightarrow> gomap \<Rightarrow> bool" where
  "map_DeepEqual m m' =
     ((m = None) = (m' = None) \<and> map_len m = map_len m' \<and>
      list_all (\<lambda>(k, v). map_of (map_range m') k = Some v) (map_range m))"

text \<open>\<open>len(s)\<close> and the elements of a slice that may be \<open>nil\<close>.\<close>

definition slice_elems :: "string list option \<Rightarrow> string list" where
  "slice_elems s = (case s of None \<Rightarrow> [] | Some xs \<Rightarrow> xs)"

section \<open>Identifier and literal formatting\<close>

definition FullName :: "SqlTableInfo \<Rightarrow> string" where
  "FullName ti = CatalogName ti @ ''.'' @ SchemaName ti @ ''.'' @ Name ti"

definition SQLFullName :: "SqlTableInfo \<Rightarrow> string" where
  "SQLFullName ti =
     [backtick] @ CatalogName ti @ [backtick] @ ''.'' @
     [backtick] @ SchemaName ti @ [backtick] @ ''.'' @
     [backtick] @ Name ti @ [backtick]"

definition parseComment :: "string \<Rightarrow> string" where
  "parseComment s =
     strings_ReplaceAll (strings_ReplaceAll s [backslash, quote] [quote]) [quote] [backslash, quote]"

definition getWrappedColumnName :: "SqlColumnInfo \<Rightarrow> string" where
  "getWrappedColumnName ci = [backtick] @ ci_Name ci @ [backtick]"

section \<open>The managed-property classifier\<close>

definition managedProps :: "string list" where
  "managedProps =
    [''clusteringColumns'',
     ''delta.lastCommitTimestamp'',
     ''delta.lastUpdateVersion'',
     ''delta.minReaderVersion'',
     ''delta.minWriterVersion'',
     ''delta.columnMapping.maxColumnId'',
     ''delta.enableDeletionVectors'',
     ''delta.enableRowTracking'',
     ''delta.feature.clustering'',
     ''delta.feature.changeDataFeed'',
     ''delta.feature.deletionVectors'',
     ''delta.feature.domainMetadata'',
     ''delta.feature.liquid'',
     ''delta.feature.rowTracking'',
     ''delta.feature.v2Checkpoint'',
     ''delta.feature.timestampNtz'',
     ''delta.liquid.clusteringColumns'',
     ''delta.rowTracking.materializedRowCommitVersionColumnName'',
     ''delta.rowTracking.materializedRowIdColumnName'',
     ''delta.checkpoint.writeStatsAsJson'',
     ''delta.checkpoint.writeStatsAsStruct'',
     ''delta.checkpointPolicy'',
     ''view.catalogAndNamespace.numParts'',
     ''view.catalogAndNamespace.part.0'',
     ''view.catalogAndNamespace.part.1'',
     ''view.query.out.col.0'',
     ''view.query.out.numCols'',
     ''view.referredTempFunctionsNames'',
     ''view.referredTempViewNames'',
     ''view.sqlConfig.spark.sql.hive.convertCTAS'',
     ''view.sqlConfig.spark.sql.legacy.createHiveTableByDefault'',
     ''view.sqlConfig.spark.sql.parquet.compression.codec'',
     ''view.sqlConfig.spark.sql.session.timeZone'',
     ''view.sqlConfig.spark.sql.sources.commitProtocolClass'',
     ''view.sqlConfig.spark.sql.sources.default'',
     ''view.sqlConfig.spark.sql.streaming.stopTimeout'']"

definition sqlTableIsManagedProperty :: "string \<Rightarrow> bool" where
  "sqlTableIsManagedProperty key = List.member managedProps key"

section \<open>The statement builder\<close>

definition serializeColumnInfo :: "SqlColumnInfo \<Rightarrow> string" where
  "serializeColumnInfo col =
     (let notNull = (if \<not> ci_Nullable col then '' NOT NULL'' else '''');
          comment = (if ci_Comment col \<noteq> ''''
                     then '' COMMENT '' @ [quote] @ parseComment (ci_Comment col) @ [quote]
                     else '''')
      in getWrappedColumnName col @ '' '' @ ci_Type col @ notNull @ comment)"

definition serializeColumnInfos :: "SqlTableInfo \<Rightarrow> string" where
  "serializeColumnInfos ti = strings_Join (map serializeColumnInfo (ColumnInfos ti)) '', ''"

text \<open>The fragment \<open>'key'='value'\<close> of \<open>serializeProperties\<close> and \<open>serializeOptions\<close>.\<close>

definition keyValueFragment :: "string \<Rightarrow> string \<Rightarrow> string" where
  "keyValueFragment key val = [quote] @ key @ [quote] @ ''='' @ [quote] @ val @ [quote]"

definition serializeProperties :: "SqlTableInfo \<Rightarrow> string" where
  "serializeProperties ti =
     strings_Join
       [keyValueFragment key val.
          (key, val) \<leftarrow> map_range (Properties ti), \<not> sqlTableIsManagedProperty key]
       '', ''"

definition serializeOptions :: "SqlTableInfo \<Rightarrow> string" where
  "serializeOptions ti =
     strings_Join
       [keyValueFragment key val.
          (key, val) \<leftarrow> map_range (Options ti), \<not> sqlTableIsManagedProperty key]
       '', ''"

definition buildLocationStatement :: "SqlTableInfo \<Rightarrow> string" where
  "buildLocationStatement ti =
     (let statements = [''LOCATION '' @ [quote] @ StorageLocation ti @ [quote]];
          statements = (if StorageCredentialName ti \<noteq> ''''
                        then statements @
                             ['' WITH (CREDENTIAL '' @ [backtick] @ StorageCredentialName ti @
                              [backtick] @ '')'']
                        else statements)
      in strings_Join statements '''')"

definition getTableTypeString :: "SqlTableInfo \<Rightarrow> string" where
  "getTableTypeString ti = (if TableType ti = ''VIEW'' then ''VIEW'' else ''TABLE'')"

definition buildTableCreateStatement :: "SqlTableInfo \<Rightarrow> string" where
  "buildTableCreateStatement ti =
     (let isView = (TableType ti = ''VIEW'');
          externalFragment = (if TableType ti = ''EXTERNAL'' then ''EXTERNAL '' else '''');
          createType = getTableTypeString ti;
          statements = [''CREATE '' @ externalFragment @ createType @ '' '' @ SQLFullName ti];
          statements = (if length (ColumnInfos ti) > 0
                        then statements @ ['' ('' @ serializeColumnInfos ti @ '')'']
                        else statements);
          statements = (if \<not> isView \<and> DataSourceFormat ti \<noteq> ''''
                        then statements @ [[newline] @ ''USING '' @ DataSourceFormat ti]
                        else statements);
          statements = (if length (Partitions ti) > 0
                        then statements @
                             [[newline] @ ''PARTITIONED BY ('' @
                              strings_Join (Partitions ti) '', '' @ '')'']
                        else statements);
          statements = (if length (slice_elems (ClusterKeys ti)) > 0
                        then statements @
                             [[newline] @ ''CLUSTER BY ('' @
                              strings_Join (slice_elems (ClusterKeys ti)) '', '' @ '')'']
                        else statements);
          statements = (if Comment ti \<noteq> ''''
                        then statements @
                             [[newline] @ ''COMMENT '' @ [quote] @ parseComment (Comment ti) @
                              [quote]]
                        else statements);
          statements = (if map_len (Properties ti) > 0
                        then statements @
                             [[newline] @ ''TBLPROPERTIES ('' @ serializeProperties ti @ '')'']
                        else statements);
          statements = (if map_len (Options ti) > 0
                        then statements @
                             [[newline] @ ''OPTIONS ('' @ serializeOptions ti @ '')'']
                        else statements);
          statements = (if \<not> isView
                        then (if StorageLocation ti \<noteq> ''''
                              then statements @ [[newline] @ buildLocationStatement ti]
                              else statements)
                        else statements @ [[newline] @ ''AS '' @ ViewDefinition ti]);
          statements = statements @ ['';'']
      in strings_Join statements '''')"

section \<open>The diff engine\<close>

text \<open>
  A run-time panic of Go is a value of its own, apart from the \<open>error\<close> a function
  returns: a slice read out of range and a failed type assertion. An \<open>error\<close> is its
  message, and \<open>nil\<close> is \<open>None\<close>.
\<close>

datatype panic = IndexOutOfRange | InterfaceConversion

type_synonym error = string

text \<open>
  A map the code builds itself, \<open>m[key] = v\<close> for each element of a slice: the entries
  in insertion order, a later value for a key replacing the earlier one. The order in
  which \<open>range\<close> visits such a map is not fixed by Go; it is the parameter \<open>rng\<close>, which
  gives the visiting order of the keys.
\<close>

definition map_put :: "(string \<times> 'v) list \<Rightarrow> string \<Rightarrow> 'v \<Rightarrow> (string \<times> 'v) list" where
  "map_put m key v = AList.update key v m"

definition map_visit ::
  "(string list \<Rightarrow> string list) \<Rightarrow> (string \<times> 'v) list \<Rightarrow> (string \<times> 'v) list"
where
  "map_visit rng m =
     List.map_filter (\<lambda>key. map_option (Pair key) (map_of m key)) (rng (map fst m))"

definition nameToColumn :: "SqlColumnInfo list \<Rightarrow> (string \<times> SqlColumnInfo) list" where
  "nameToColumn cols = foldl (\<lambda>m ci. map_put m (ci_Name ci) ci) [] cols"

definition addOrRemoveColumnStatements ::
  "(string list \<Rightarrow> string list) \<Rightarrow> SqlTableInfo \<Rightarrow> SqlTableInfo \<Rightarrow> string list \<Rightarrow> string \<Rightarrow>
   string list"
where
  "addOrRemoveColumnStatements rng ti oldti statements typestring =
     (let nameToOldColumn = nameToColumn (ColumnInfos oldti);
          nameToNewColumn = nameToColumn (ColumnInfos ti);
          removeColumnStatements =
            [getWrappedColumnName oldCi.
               (name, oldCi) \<leftarrow> map_visit rng nameToOldColumn,
               map_of nameToNewColumn name = None];
          statements =
            (if length removeColumnStatements > 0
             then statements @
                  [''ALTER '' @ typestring @ '' '' @ SQLFullName ti @
                   '' DROP COLUMN IF EXISTS ('' @
                   strings_Join removeColumnStatements '', '' @ '')'']
             else statements)
      in foldl
           (\<lambda>statements i.
              let newCi = ColumnInfos ti ! i in
              if map_of nameToOldColumn (ci_Name newCi) = None
              then (let newCiStatement = serializeColumnInfo newCi in
                    if i = 0
                    then statements @
                         [''ALTER '' @ typestring @ '' '' @ SQLFullName ti @
                          '' ADD COLUMN '' @ newCiStatement @ '' FIRST'']
                    else statements @
                         [''ALTER '' @ typestring @ '' '' @ SQLFullName ti @
                          '' ADD COLUMN '' @ newCiStatement @ '' AFTER '' @
                          ci_Name (ColumnInfos ti ! (i - 1))])
              else statements)
           statements [0..<length (ColumnInfos ti)])"

text \<open>
  The body of the loop of \<open>alterExistingColumnStatements\<close> at one index, once
  \<open>oldti.ColumnInfos[i]\<close> has been read.
\<close>

definition alterColumnAt ::
  "SqlTableInfo \<Rightarrow> string \<Rightarrow> SqlColumnInfo \<Rightarrow> SqlColumnInfo \<Rightarrow> string list \<Rightarrow> string list"
where
  "alterColumnAt ti typestring ci oldCi statements =
     (let statements =
            (if ci_Name ci \<noteq> ci_Name oldCi
             then statements @
                  [''ALTER '' @ typestring @ '' '' @ SQLFullName ti @ '' RENAME COLUMN '' @
                   getWrappedColumnName oldCi @ '' to '' @ getWrappedColumnName ci]
             else statements);
          statements =
            (if ci_Comment ci \<noteq> ci_Comment oldCi
             then statements @
                  [''ALTER '' @ typestring @ '' '' @ SQLFullName ti @ '' ALTER COLUMN '' @
                   getWrappedColumnName ci @ '' COMMENT '' @ [quote] @
                   parseComment (ci_Comment ci) @ [quote]]
             else statements);
          statements =
            (if ci_Nullable ci \<noteq> ci_Nullable oldCi
             then (let keyWord = (if ci_Nullable ci then ''DROP'' else ''SET'') in
                   statements @
                   [''ALTER '' @ typestring @ '' '' @ SQLFullName ti @ '' ALTER COLUMN '' @
                    getWrappedColumnName ci @ '' '' @ keyWord @ '' NOT NULL''])
             else statements)
      in statements)"

text \<open>
  The loop \<open>for i, ci := range ti.ColumnInfos\<close>, over the indices still to visit; the
  read \<open>oldti.ColumnInfos[i]\<close> panics when the old table has no column \<open>i\<close>.
\<close>

fun alterExistingColumns_loop ::
  "SqlTableInfo \<Rightarrow> SqlTableInfo \<Rightarrow> string \<Rightarrow> nat list \<Rightarrow> string list \<Rightarrow> panic + string list"
where
  "alterExistingColumns_loop ti oldti typestring [] statements = Inr statements"
| "alterExistingColumns_loop ti oldti typestring (i # is) statements =
     (if i < length (ColumnInfos oldti)
      then alterExistingColumns_loop ti oldti typestring is
             (alterColumnAt ti typestring (ColumnInfos ti ! i) (ColumnInfos oldti ! i) statements)
      else Inl IndexOutOfRange)"

definition alterExistingColumnStatements ::
  "SqlTableInfo \<Rightarrow> SqlTableInfo \<Rightarrow> string list \<Rightarrow> string \<Rightarrow> panic + string list"
where
  "alterExistingColumnStatements ti oldti statements typestring =
     alterExistingColumns_loop ti oldti typestring [0..<length (ColumnInfos ti)] statements"

definition getStatementsForColumnDiffs ::
  "(string list \<Rightarrow> string list) \<Rightarrow> SqlTableInfo \<Rightarrow> SqlTableInfo \<Rightarrow> string list \<Rightarrow> string \<Rightarrow>
   panic + string list"
where
  "getStatementsForColumnDiffs rng ti oldti statements typestring =
     (if length (ColumnInfos ti) \<noteq> length (ColumnInfos oldti)
      then Inr (addOrRemoveColumnStatements rng ti oldti statements typestring)
      else alterExistingColumnStatements ti oldti statements typestring)"

definition diff ::
  "(string list \<Rightarrow> string list) \<Rightarrow> SqlTableInfo \<Rightarrow> SqlTableInfo \<Rightarrow>
   panic + (string list \<times> error option)"
where
  "diff rng ti oldti =
     (let statements = [];
          typestring = getTableTypeString ti;
          statements =
            (if TableType ti = ''VIEW''
             then (if ViewDefinition ti \<noteq> ViewDefinition oldti
                   then statements @
                        [''ALTER VIEW '' @ SQLFullName ti @ '' AS '' @ ViewDefinition ti]
                   else statements)
             else (let statements =
                         (if StorageLocation ti \<noteq> StorageLocation oldti
                          then statements @
                               [''ALTER TABLE '' @ SQLFullName ti @ '' SET '' @
                                buildLocationStatement ti]
                          else statements)
                   in if ClusterKeys ti \<noteq> ClusterKeys oldti
                      then statements @
                           [''ALTER TABLE '' @ SQLFullName ti @ '' CLUSTER BY ('' @
                            strings_Join (slice_elems (ClusterKeys ti)) '', '' @ '')'']
                      else statements));
          statements =
            (if Comment ti \<noteq> Comment oldti
             then statements @
                  [''COMMENT ON '' @ typestring @ '' '' @ SQLFullName ti @ '' IS '' @
                   [quote] @ parseComment (Comment ti) @ [quote]]
             else statements);
          statements =
            (if \<not> map_DeepEqual (Properties ti) (Properties oldti)
             then (let removeProps =
                         [key. (key, val) \<leftarrow> map_range (Properties oldti),
                               \<not> map_has (Properties ti) key];
                       statements =
                         (if length removeProps > 0
                          then statements @
                               [''ALTER '' @ typestring @ '' '' @ SQLFullName ti @
                                '' UNSET TBLPROPERTIES IF EXISTS ('' @
                                strings_Join removeProps '','' @ '')'']
                          else statements)
                   in statements @
                      [''ALTER '' @ typestring @ '' '' @ SQLFullName ti @
                       '' SET TBLPROPERTIES ('' @ serializeProperties ti @ '')''])
             else statements)
      in case getStatementsForColumnDiffs rng ti oldti statements typestring of
           Inl p \<Rightarrow> Inl p
         | Inr statements \<Rightarrow> Inr (statements, None))"

section \<open>Executing the statements\<close>

text \<open>
  The two remote executors that \<open>applySql\<close> calls are outside this file; they are
  parameters, acting on a state \<open>'w\<close> of the remote side. \<open>ExecuteStatement\<close> answers
  with an error or with the state string of the statement; \<open>Execute\<close> answers with the
  error text of a failed command, or with \<open>None\<close>.
\<close>

record 'w executors =
  ExecuteStatement :: "string \<Rightarrow> string \<Rightarrow> 'w \<Rightarrow> (error + string) \<times> 'w"
  Execute :: "string \<Rightarrow> string \<Rightarrow> string \<Rightarrow> 'w \<Rightarrow> string option \<times> 'w"

definition applySql ::
  "'w executors \<Rightarrow> SqlTableInfo \<Rightarrow> string \<Rightarrow> 'w \<Rightarrow> error option \<times> 'w"
where
  "applySql ex ti sqlQuery w =
     (if WarehouseID ti \<noteq> []
      then (case ExecuteStatement ex sqlQuery (WarehouseID ti) w of
              (Inl err, w') \<Rightarrow> (Some err, w')
            | (Inr state, w') \<Rightarrow>
                (if state \<noteq> ''SUCCEEDED''
                 then (Some (''statement failed to execute: '' @ state), w')
                 else (None, w')))
      else (case Execute ex (ClusterID ti) ''sql'' sqlQuery w of
              (Some msg, w') \<Rightarrow> (Some (''cannot execute '' @ sqlQuery @ '': '' @ msg), w')
            | (None, w') \<Rightarrow> (None, w')))"

text \<open>The loop of \<open>updateTable\<close>: one statement after the other, stopping at the first error.\<close>

fun applyStatements ::
  "'w executors \<Rightarrow> SqlTableInfo \<Rightarrow> string list \<Rightarrow> 'w \<Rightarrow> error option \<times> 'w"
where
  "applyStatements ex ti [] w = (None, w)"
| "applyStatements ex ti (statement # rest) w =
     (case applySql ex ti statement w of
        (Some err, w') \<Rightarrow> (Some err, w')
      | (None, w') \<Rightarrow> applyStatements ex ti rest w')"

definition updateTable ::
  "'w executors \<Rightarrow> (string list \<Rightarrow> string list) \<Rightarrow> SqlTableInfo \<Rightarrow> SqlTableInfo \<Rightarrow> 'w \<Rightarrow>
   panic + (error option \<times> 'w)"
where
  "updateTable ex rng ti oldti w =
     (case diff rng ti oldti of
        Inl p \<Rightarrow> Inl p
      | Inr (statements, Some err) \<Rightarrow> Inr (Some err, w)
      | Inr (statements, None) \<Rightarrow> Inr (applyStatements ex ti statements w))"

section \<open>The pre-flight validators\<close>

text \<open>
  The old columns reach the validators as \<open>interface{}\<close> values, as the plan of the
  resource hands them over: a list of maps from field name to value. A type
  assertion \<open>v.(T)\<close> on a value of another dynamic type panics; reading a key a map
  does not have gives the \<open>nil\<close> interface.
\<close>

datatype tfval =
    TfNil
  | TfString string
  | TfBool bool
  | TfList "tfval list"
  | TfMap "(string \<times> tfval) list"

definition assertString :: "tfval \<Rightarrow> panic + string" where
  "assertString v = (case v of TfString s \<Rightarrow> Inr s | _ \<Rightarrow> Inl InterfaceConversion)"

definition assertMap :: "tfval \<Rightarrow> panic + (string \<times> tfval) list" where
  "assertMap v = (case v of TfMap m \<Rightarrow> Inr m | _ \<Rightarrow> Inl InterfaceConversion)"

definition assertList :: "tfval \<Rightarrow> panic + tfval list" where
  "assertList v = (case v of TfList vs \<Rightarrow> Inr vs | _ \<Rightarrow> Inl InterfaceConversion)"

definition map_index :: "(string \<times> tfval) list \<Rightarrow> string \<Rightarrow> tfval" where
  "map_index m key = (case map_of m key of None \<Rightarrow> TfNil | Some v \<Rightarrow> v)"

text \<open>
  The value under which the plan holds a column with the four fields of the schema:
  the form of the old columns the validators are written for.
\<close>

definition oldColumnFields :: "SqlColumnInfo \<Rightarrow> (string \<times> tfval) list" where
  "oldColumnFields ci =
     [(''name'', TfString (ci_Name ci)),
      (''type'', TfString (ci_Type ci)),
      (''comment'', TfString (ci_Comment ci)),
      (''nullable'', TfBool (ci_Nullable ci))]"

definition oldColumn :: "SqlColumnInfo \<Rightarrow> tfval" where
  "oldColumn ci = TfMap (oldColumnFields ci)"

definition columnTypeAliases :: "(string \<times> string) list" where
  "columnTypeAliases =
    [(''integer'', ''int''),
     (''long'', ''bigint''),
     (''real'', ''float''),
     (''short'', ''smallint''),
     (''byte'', ''tinyint''),
     (''decimal'', ''decimal(10,0)''),
     (''dec'', ''decimal(10,0)''),
     (''numeric'', ''decimal(10,0)'')]"

definition getColumnType :: "(string \<Rightarrow> string) \<Rightarrow> string \<Rightarrow> string" where
  "getColumnType ToLower columnType =
     (let caseInsensitiveColumnType = ToLower columnType in
      case map_of columnTypeAliases caseInsensitiveColumnType of
        Some alias \<Rightarrow> alias
      | None \<Rightarrow> caseInsensitiveColumnType)"

definition typeChangeError :: error where
  "typeChangeError = ''changing the 'type' of an existing column is not supported''"

definition mixedChangeError :: error where
  "mixedChangeError =
     ''detected changes in both number of columns and existing column field values, please do not change number of columns and update column values at the same time''"

text \<open>
  The loop of \<open>assertNoColumnTypeDiff\<close> from index \<open>i\<close> on, over the old columns still
  to visit. The left operand of the comparison is evaluated first, so a failed
  assertion on the old column comes before the read \<open>newColumnInfos[i]\<close>.
\<close>

fun assertNoColumnTypeDiff_loop ::
  "(string \<Rightarrow> string) \<Rightarrow> nat \<Rightarrow> tfval list \<Rightarrow> SqlColumnInfo list \<Rightarrow> panic + error option"
where
  "assertNoColumnTypeDiff_loop ToLower i [] newColumnInfos = Inr None"
| "assertNoColumnTypeDiff_loop ToLower i (oldCol # rest) newColumnInfos =
     (case assertMap oldCol of
        Inl p \<Rightarrow> Inl p
      | Inr oldColMap \<Rightarrow>
          (case assertString (map_index oldColMap ''type'') of
             Inl p \<Rightarrow> Inl p
           | Inr oldType \<Rightarrow>
               if i < length newColumnInfos
               then (if getColumnType ToLower oldType \<noteq> getColumnType ToLower (ci_Type (newColumnInfos ! i))
                     then Inr (Some typeChangeError)
                     else assertNoColumnTypeDiff_loop ToLower (Suc i) rest newColumnInfos)
               else Inl IndexOutOfRange))"

definition assertNoColumnTypeDiff ::
  "(string \<Rightarrow> string) \<Rightarrow> tfval list \<Rightarrow> SqlColumnInfo list \<Rightarrow> panic + error option"
where
  "assertNoColumnTypeDiff ToLower oldCols newColumnInfos =
     assertNoColumnTypeDiff_loop ToLower 0 oldCols newColumnInfos"

text \<open>The first loop of \<open>assertNoColumnMembershipAndFieldValueUpdate\<close>.\<close>

fun oldColsNameToMap_loop ::
  "tfval list \<Rightarrow> (string \<times> (string \<times> tfval) list) list \<Rightarrow>
   panic + (string \<times> (string \<times> tfval) list) list"
where
  "oldColsNameToMap_loop [] m = Inr m"
| "oldColsNameToMap_loop (oldCol # rest) m =
     (case assertMap oldCol of
        Inl p \<Rightarrow> Inl p
      | Inr oldColMap \<Rightarrow>
          (case assertString (map_index oldColMap ''name'') of
             Inl p \<Rightarrow> Inl p
           | Inr name \<Rightarrow> oldColsNameToMap_loop rest (map_put m name oldColMap)))"

text \<open>Its third loop, over the entries of \<open>oldColsNameToMap\<close> in the order of the visit.\<close>

fun fieldValueUpdate_loop ::
  "(string \<Rightarrow> string) \<Rightarrow> (string \<times> (string \<times> tfval) list) list \<Rightarrow> (string \<times> SqlColumnInfo) list \<Rightarrow>
   panic + error option"
where
  "fieldValueUpdate_loop ToLower [] newColsNameToMap = Inr None"
| "fieldValueUpdate_loop ToLower ((name, oldColMap) # rest) newColsNameToMap =
     (case map_of newColsNameToMap name of
        None \<Rightarrow> fieldValueUpdate_loop ToLower rest newColsNameToMap
      | Some newCol \<Rightarrow>
          (case assertString (map_index oldColMap ''type'') of
             Inl p \<Rightarrow> Inl p
           | Inr oldType \<Rightarrow>
               if getColumnType ToLower oldType \<noteq> getColumnType ToLower (ci_Type newCol) \<or>
                  map_index oldColMap ''nullable'' \<noteq> TfBool (ci_Nullable newCol) \<or>
                  map_index oldColMap ''comment'' \<noteq> TfString (ci_Comment newCol)
               then Inr (Some mixedChangeError)
               else fieldValueUpdate_loop ToLower rest newColsNameToMap))"

definition assertNoColumnMembershipAndFieldValueUpdate ::
  "(string \<Rightarrow> string) \<Rightarrow> (string list \<Rightarrow> string list) \<Rightarrow> tfval list \<Rightarrow> SqlColumnInfo list \<Rightarrow> panic + error option"
where
  "assertNoColumnMembershipAndFieldValueUpdate ToLower rng oldCols newColumnInfos =
     (case oldColsNameToMap_loop oldCols [] of
        Inl p \<Rightarrow> Inl p
      | Inr oldColsNameToMap \<Rightarrow>
          (let newColsNameToMap = nameToColumn newColumnInfos in
           fieldValueUpdate_loop ToLower (map_visit rng oldColsNameToMap) newColsNameToMap))"

text \<open>
  \<open>columnChangesCustomizeDiff\<close>, with the old value of \<open>column\<close> that \<open>d.GetChange\<close>
  returns as the argument \<open>old\<close>.
\<close>

definition columnChangesCustomizeDiff ::
  "(string \<Rightarrow> string) \<Rightarrow> (string list \<Rightarrow> string list) \<Rightarrow> tfval \<Rightarrow> SqlTableInfo \<Rightarrow> panic + error option"
where
  "columnChangesCustomizeDiff ToLower rng old newTable =
     (case assertList old of
        Inl p \<Rightarrow> Inl p
      | Inr oldCols \<Rightarrow>
          (let newColumnInfos = ColumnInfos newTable in
           if length oldCols = length newColumnInfos
           then assertNoColumnTypeDiff ToLower oldCols newColumnInfos
           else assertNoColumnMembershipAndFieldValueUpdate ToLower rng oldCols newColumnInfos))"

section \<open>The customisation of the plan\<close>

text \<open>
  The loop of \<open>CustomizeDiff\<close> that runs when \<open>properties\<close> changed, on the old and
  the new property map and the old options that \<open>d.GetChange\<close> returns; its result
  is the map handed to \<open>d.SetNew\<close>. The old map is listed in the order of the visit.
  A key of the old map that the new map lacks is copied over when it is an option,
  a managed key or a key that starts with \<open>option.\<close>.
\<close>

definition customizeDiffProperties ::
  "(string \<times> string) list \<Rightarrow> (string \<times> string) list \<Rightarrow> (string \<times> string) list \<Rightarrow>
   (string \<times> string) list"
where
  "customizeDiffProperties oldProps newProps options =
     foldl
       (\<lambda>newProps (key, val).
          if map_of newProps key = None
          then (let newProps =
                      (if map_of options key \<noteq> None then map_put newProps key val
                       else newProps)
                in if sqlTableIsManagedProperty key \<or> prefix ''option.'' key
                   then map_put newProps key val
                   else newProps)
          else newProps)
       newProps oldProps"

section \<open>What the properties are stated with\<close>

text \<open>
  What Go promises of a \<open>range\<close> over a map: every key is visited, and once. It is
  the only thing the properties below ask of the parameter \<open>rng\<close>.
\<close>

definition visits_each_key_once :: "(string list \<Rightarrow> string list) \<Rightarrow> bool" where
  "visits_each_key_once rng =
     (\<forall>ks. distinct ks \<longrightarrow> distinct (rng ks) \<and> set (rng ks) = set ks)"

text \<open>The keys of a \<open>map[string]string\<close> are pairwise distinct.\<close>

definition map_wf :: "gomap \<Rightarrow> bool" where
  "map_wf m = distinct (map fst (map_range m))"

text \<open>
  A managed table \<open>c.s.n\<close> with nothing else set, and a nullable column without a
  comment: the concrete inputs are built from these two.
\<close>

definition exampleTable :: SqlTableInfo where
  "exampleTable =
     \<lparr>Name = ''n'', CatalogName = ''c'', SchemaName = ''s'', TableType = ''MANAGED'',
      DataSourceFormat = '''', ColumnInfos = [], Partitions = [], ClusterKeys = None,
      StorageLocation = '''', StorageCredentialName = '''', ViewDefinition = '''',
      Comment = '''', Properties = None, Options = None, ClusterID = '''',
      WarehouseID = ''''\<rparr>"

definition exampleColumn :: "string \<Rightarrow> string \<Rightarrow> SqlColumnInfo" where
  "exampleColumn name type =
     \<lparr>ci_Name = name, ci_Type = type, ci_Comment = '''', ci_Nullable = True\<rparr>"

section \<open>Escaping of literals\<close>

lemma backslash_neq_quote: "backslash \<noteq> quote"
  by (simp add: backslash_def quote_def)

lemma escape_simps:
  "strings_ReplaceAll [] [quote] [backslash, quote] = []"
  "strings_ReplaceAll (c # cs) [quote] [backslash, quote] =
     (if c = quote then backslash # quote # strings_ReplaceAll cs [quote] [backslash, quote]
      else c # strings_ReplaceAll cs [quote] [backslash, quote])"
  by simp_all

lemma unescape_simps:
  "strings_ReplaceAll [] [backslash, quote] [quote] = []"
  "strings_ReplaceAll [c] [backslash, quote] [quote] = [c]"
  "strings_ReplaceAll (c # d # cs) [backslash, quote] [quote] =
     (if c = backslash \<and> d = quote
      then quote # strings_ReplaceAll cs [backslash, quote] [quote]
      else c # strings_ReplaceAll (d # cs) [backslash, quote] [quote])"
  by simp_all

text \<open>A byte that is no quote passes through unescaping when escaped text follows it.\<close>

lemma unescape_plain_head:
  assumes "c \<noteq> quote"
  shows "strings_ReplaceAll (c # strings_ReplaceAll cs [quote] [backslash, quote])
           [backslash, quote] [quote] =
         c # strings_ReplaceAll (strings_ReplaceAll cs [quote] [backslash, quote])
               [backslash, quote] [quote]"
proof (cases cs)
  case Nil
  then show ?thesis by (simp only: escape_simps unescape_simps)
next
  case (Cons d ds)
  show ?thesis
  proof (cases "d = quote")
    case True
    then show ?thesis unfolding Cons
      using backslash_neq_quote
      by (simp only: escape_simps unescape_simps if_True simp_thms if_False)
  next
    case False
    then show ?thesis unfolding Cons
      by (simp only: escape_simps unescape_simps if_True simp_thms if_False)
  qed
qed

text \<open>Unescaping undoes escaping, whatever the text.\<close>

lemma unescape_escape:
  "strings_ReplaceAll (strings_ReplaceAll s [quote] [backslash, quote])
     [backslash, quote] [quote] = s"
proof (induction s)
  case Nil
  show ?case by (simp only: escape_simps unescape_simps)
next
  case (Cons c cs)
  show ?case
  proof (cases "c = quote")
    case True
    then show ?thesis using Cons
      by (simp only: escape_simps unescape_simps if_True simp_thms)
  next
    case False
    then show ?thesis using Cons unescape_plain_head[OF False, of cs]
      by (simp only: escape_simps if_False)
  qed
qed

text \<open>
  Claim C8. \<open>parseComment\<close> is idempotent: applied to its own result it changes
  nothing, so a comment that arrives escaped gets the same single level of escaping.
  With \<open>escape\<close> the replacement of a quote by backslash and quote, and \<open>unescape\<close> the
  replacement the other way, \<open>escape (unescape (escape s)) = escape s\<close>.
\<close>

theorem parseComment_idempotent:
  "parseComment (parseComment s) = parseComment s \<and>
   strings_ReplaceAll
     (strings_ReplaceAll (strings_ReplaceAll s [quote] [backslash, quote])
        [backslash, quote] [quote])
     [quote] [backslash, quote] =
   strings_ReplaceAll s [quote] [backslash, quote]"
  unfolding parseComment_def by (simp only: unescape_escape simp_thms)

section \<open>The create statement\<close>

text \<open>
  Claim C2, at the input the code fails on. The table \<open>c.s.n\<close> has one property and
  one option, both with a managed key. The claim has the clauses \<open>TBLPROPERTIES\<close> and
  \<open>OPTIONS\<close> left out; \<open>buildTableCreateStatement\<close> tests the length of the maps
  before the managed keys are filtered out, and writes both clauses with an empty
  list.
\<close>

theorem buildTableCreateStatement_only_managed_keys:
  "buildTableCreateStatement
     (exampleTable
        \<lparr>Properties := Some [(''delta.minReaderVersion'', ''1'')],
         Options := Some [(''delta.minWriterVersion'', ''2'')]\<rparr>) =
   ''CREATE TABLE `c`.`s`.`n`'' @ [newline] @ ''TBLPROPERTIES ()'' @ [newline] @
   ''OPTIONS ();''"
  by code_simp

section \<open>The diff never fails\<close>

lemma alterColumnAt_same: "alterColumnAt ti ts ci ci statements = statements"
  by (simp add: alterColumnAt_def)

lemma alterColumnAt_extends:
  "\<exists>xs. alterColumnAt ti ts ci oldCi statements = statements @ xs"
  by (simp add: alterColumnAt_def Let_def)

lemma alterExistingColumns_loop_total:
  "\<forall>i \<in> set is. i < length (ColumnInfos oldti) \<Longrightarrow>
   \<exists>xs. alterExistingColumns_loop ti oldti ts is statements = Inr (statements @ xs)"
proof (induction "is" arbitrary: statements)
  case Nil
  then show ?case by simp
next
  case (Cons i "is")
  obtain ys where ys:
    "alterColumnAt ti ts (ColumnInfos ti ! i) (ColumnInfos oldti ! i) statements =
     statements @ ys"
    using alterColumnAt_extends by blast
  from Cons.prems have "\<forall>i \<in> set is. i < length (ColumnInfos oldti)" by simp
  from Cons.IH[OF this, of "statements @ ys"] obtain zs where
    "alterExistingColumns_loop ti oldti ts is (statements @ ys) =
     Inr ((statements @ ys) @ zs)" by blast
  with Cons.prems ys show ?case by simp
qed

text \<open>The dispatch on the column counts keeps the positional path inside the old list.\<close>

lemma getStatementsForColumnDiffs_total:
  "\<exists>xs. getStatementsForColumnDiffs rng ti oldti statements ts = Inr xs"
proof (cases "length (ColumnInfos ti) = length (ColumnInfos oldti)")
  case True
  then have "\<forall>i \<in> set [0..<length (ColumnInfos ti)]. i < length (ColumnInfos oldti)"
    by simp
  from alterExistingColumns_loop_total[OF this, of ti ts statements] obtain xs where
    "alterExistingColumns_loop ti oldti ts [0..<length (ColumnInfos ti)] statements =
     Inr (statements @ xs)"
    by blast
  with True show ?thesis
    by (simp add: getStatementsForColumnDiffs_def alterExistingColumnStatements_def)
next
  case False
  then show ?thesis by (simp add: getStatementsForColumnDiffs_def)
qed

lemma diff_returns: "\<exists>statements. diff rng ti oldti = Inr (statements, None)"
proof -
  have "\<exists>xs. getStatementsForColumnDiffs rng ti oldti pre ts = Inr xs" for pre ts
    by (rule getStatementsForColumnDiffs_total)
  then show ?thesis
    unfolding diff_def Let_def by (metis sum.case(2))
qed

text \<open>
  Claim C10. \<open>diff\<close> is total and never fails: for every pair of tables and every
  visiting order it returns a statement list with the error \<open>nil\<close>, without a panic.
  So \<open>updateTable\<close> is the execution of these statements, and an error it returns is
  an error of \<open>applySql\<close>.
\<close>

theorem diff_never_fails:
  "\<exists>statements. diff rng ti oldti = Inr (statements, None) \<and>
     updateTable ex rng ti oldti w = Inr (applyStatements ex ti statements w)"
proof -
  obtain statements where "diff rng ti oldti = Inr (statements, None)"
    using diff_returns by blast
  then show ?thesis by (simp add: updateTable_def)
qed

section \<open>The statements before the column statements\<close>

text \<open>
  Nothing \<open>diff\<close> computes before it turns to the columns reads the columns. The
  statements of that part are therefore the result of \<open>diff\<close> on the same two tables
  with their columns taken away, and the column statements are appended to them.
\<close>

lemma ColumnInfos_ignored:
  "getTableTypeString (ti\<lparr>ColumnInfos := cs\<rparr>) = getTableTypeString ti"
  "SQLFullName (ti\<lparr>ColumnInfos := cs\<rparr>) = SQLFullName ti"
  "buildLocationStatement (ti\<lparr>ColumnInfos := cs\<rparr>) = buildLocationStatement ti"
  "serializeProperties (ti\<lparr>ColumnInfos := cs\<rparr>) = serializeProperties ti"
  by (simp_all add: getTableTypeString_def SQLFullName_def buildLocationStatement_def
        serializeProperties_def Let_def)

lemma getStatementsForColumnDiffs_no_columns:
  "getStatementsForColumnDiffs rng (ti\<lparr>ColumnInfos := []\<rparr>) (oldti\<lparr>ColumnInfos := []\<rparr>)
     statements ts = Inr statements"
  by (simp add: getStatementsForColumnDiffs_def alterExistingColumnStatements_def)

lemma diff_strip_columns:
  "diff rng ti oldti =
     (case diff rng (ti\<lparr>ColumnInfos := []\<rparr>) (oldti\<lparr>ColumnInfos := []\<rparr>) of
        Inl p \<Rightarrow> Inl p
      | Inr (pre, e) \<Rightarrow>
          (case getStatementsForColumnDiffs rng ti oldti pre (getTableTypeString ti) of
             Inl p \<Rightarrow> Inl p
           | Inr statements \<Rightarrow> Inr (statements, None)))"
  unfolding diff_def
  by (simp add: ColumnInfos_ignored getStatementsForColumnDiffs_no_columns Let_def
      split del: if_split cong: if_cong)

lemma diff_columns_split:
  "\<exists>pre. diff rng (ti\<lparr>ColumnInfos := []\<rparr>) (oldti\<lparr>ColumnInfos := []\<rparr>) = Inr (pre, None) \<and>
     diff rng ti oldti =
       (case getStatementsForColumnDiffs rng ti oldti pre (getTableTypeString ti) of
          Inl p \<Rightarrow> Inl p
        | Inr statements \<Rightarrow> Inr (statements, None))"
proof -
  obtain pre where
    "diff rng (ti\<lparr>ColumnInfos := []\<rparr>) (oldti\<lparr>ColumnInfos := []\<rparr>) = Inr (pre, None)"
    using diff_returns by blast
  with diff_strip_columns[of rng ti oldti] show ?thesis by simp
qed

section \<open>A table against itself\<close>

lemma map_DeepEqual_refl: "map_wf m \<Longrightarrow> map_DeepEqual m m"
  by (auto simp: map_wf_def map_DeepEqual_def list_all_iff)

lemma alterExistingColumns_loop_same:
  "\<forall>i \<in> set is. i < length (ColumnInfos x) \<Longrightarrow>
   alterExistingColumns_loop x x ts is statements = Inr statements"
  by (induction "is") (simp_all add: alterColumnAt_same)

lemma getStatementsForColumnDiffs_same:
  "getStatementsForColumnDiffs rng x x statements ts = Inr statements"
  by (simp add: getStatementsForColumnDiffs_def alterExistingColumnStatements_def
      alterExistingColumns_loop_same)

text \<open>
  Claim C3. For every well-formed table \<open>x\<close> (the keys of its property map are
  pairwise distinct, as the keys of a map are), \<open>diff\<close> of \<open>x\<close> against \<open>x\<close> returns
  the empty statement list and no error.
\<close>

theorem diff_same:
  assumes "map_wf (Properties x)"
  shows "diff rng x x = Inr ([], None)"
  using map_DeepEqual_refl[OF assms]
  by (simp add: diff_def getStatementsForColumnDiffs_same)

theorem diff_same_witness:
  "map_wf (Properties (exampleTable\<lparr>Properties := Some [(''k'', ''v'')],
                                   ColumnInfos := [exampleColumn ''a'' ''int'']\<rparr>)) \<and>
   diff id
     (exampleTable\<lparr>Properties := Some [(''k'', ''v'')],
                   ColumnInfos := [exampleColumn ''a'' ''int'']\<rparr>)
     (exampleTable\<lparr>Properties := Some [(''k'', ''v'')],
                   ColumnInfos := [exampleColumn ''a'' ''int'']\<rparr>) =
   Inr ([], None)"
proof -
  have wf: "map_wf (Properties (exampleTable\<lparr>Properties := Some [(''k'', ''v'')],
                                            ColumnInfos := [exampleColumn ''a'' ''int'']\<rparr>))"
    by (simp add: map_wf_def map_range_def)
  from wf diff_same[OF wf, of id] show ?thesis by simp
qed

section \<open>Renaming one column\<close>

text \<open>
  Claim C7. With the previous column list \<open>[a]\<close> and the desired column list \<open>[b]\<close>,
  two different names with the same type, nullability and comment, \<open>diff\<close> emits one
  column statement and no other: after the statements that are not about columns
  comes \<open>ALTER ... RENAME COLUMN\<close> with the old and then the new name, each in
  backticks. (The code writes the keyword between the two names in lower case, \<open>to\<close>.)
\<close>

theorem diff_rename_only:
  assumes "ColumnInfos oldti = [a]" and "ColumnInfos ti = [b]"
    and "ci_Name a \<noteq> ci_Name b" and "ci_Type a = ci_Type b"
    and "ci_Nullable a = ci_Nullable b" and "ci_Comment a = ci_Comment b"
  shows "\<exists>pre. diff rng (ti\<lparr>ColumnInfos := []\<rparr>) (oldti\<lparr>ColumnInfos := []\<rparr>) = Inr (pre, None) \<and>
     diff rng ti oldti =
       Inr (pre @
            [''ALTER '' @ getTableTypeString ti @ '' '' @ SQLFullName ti @
             '' RENAME COLUMN '' @ [backtick] @ ci_Name a @ [backtick] @ '' to '' @
             [backtick] @ ci_Name b @ [backtick]],
            None)"
proof -
  have "getStatementsForColumnDiffs rng ti oldti pre (getTableTypeString ti) =
        Inr (pre @
             [''ALTER '' @ getTableTypeString ti @ '' '' @ SQLFullName ti @
              '' RENAME COLUMN '' @ [backtick] @ ci_Name a @ [backtick] @ '' to '' @
              [backtick] @ ci_Name b @ [backtick]])" for pre
    using assms
    by (simp add: getStatementsForColumnDiffs_def alterExistingColumnStatements_def
        alterColumnAt_def getWrappedColumnName_def)
  with diff_columns_split[of rng ti oldti] show ?thesis by auto
qed

theorem diff_rename_only_witness:
  "ci_Name (exampleColumn ''a'' ''int'') \<noteq> ci_Name (exampleColumn ''b'' ''int'') \<and>
   diff id (exampleTable\<lparr>ColumnInfos := [exampleColumn ''b'' ''int'']\<rparr>)
           (exampleTable\<lparr>ColumnInfos := [exampleColumn ''a'' ''int'']\<rparr>) =
   Inr ([''ALTER TABLE `c`.`s`.`n` RENAME COLUMN `a` to `b`''], None)"
proof -
  let ?a = "exampleColumn ''a'' ''int''" and ?b = "exampleColumn ''b'' ''int''"
  let ?old = "exampleTable\<lparr>ColumnInfos := [?a]\<rparr>"
    and ?new = "exampleTable\<lparr>ColumnInfos := [?b]\<rparr>"
  have h1: "ColumnInfos ?old = [?a]" and h2: "ColumnInfos ?new = [?b]" by simp_all
  have h3: "ci_Name ?a \<noteq> ci_Name ?b" and h4: "ci_Type ?a = ci_Type ?b"
    and h5: "ci_Nullable ?a = ci_Nullable ?b" and h6: "ci_Comment ?a = ci_Comment ?b"
    by (simp_all add: exampleColumn_def)
  from diff_rename_only[OF h1 h2 h3 h4 h5 h6, of id] obtain pre where
    p1: "diff id (?new\<lparr>ColumnInfos := []\<rparr>) (?old\<lparr>ColumnInfos := []\<rparr>) = Inr (pre, None)" and
    p2: "diff id ?new ?old =
       Inr (pre @
            [''ALTER '' @ getTableTypeString ?new @ '' '' @ SQLFullName ?new @
             '' RENAME COLUMN '' @ [backtick] @ ci_Name ?a @ [backtick] @ '' to '' @
             [backtick] @ ci_Name ?b @ [backtick]],
            None)"
    by blast
  have "diff id (?new\<lparr>ColumnInfos := []\<rparr>) (?old\<lparr>ColumnInfos := []\<rparr>) = Inr ([], None)"
    by code_simp
  with p1 have "pre = []" by simp
  moreover have
    "''ALTER '' @ getTableTypeString ?new @ '' '' @ SQLFullName ?new @
     '' RENAME COLUMN '' @ [backtick] @ ci_Name ?a @ [backtick] @ '' to '' @
     [backtick] @ ci_Name ?b @ [backtick] =
     ''ALTER TABLE `c`.`s`.`n` RENAME COLUMN `a` to `b`''"
    by code_simp
  ultimately show ?thesis using p2 h3 by simp
qed

section \<open>Added and removed columns\<close>

lemma foldl_append_if:
  "foldl (\<lambda>st i. if P i then st @ [f i] else st) st is = st @ map f (filter P is)"
  by (induction "is" arbitrary: st) simp_all

lemma set_map_put: "set (map_put m k v) \<subseteq> insert (k, v) (set m)"
  unfolding map_put_def by (induction m) auto

lemma nameToColumn_acc:
  assumes "distinct (map fst m)" and "\<forall>(n, c) \<in> set m. ci_Name c = n"
  shows "distinct (map fst (foldl (\<lambda>m ci. map_put m (ci_Name ci) ci) m cols)) \<and>
         (\<forall>(n, c) \<in> set (foldl (\<lambda>m ci. map_put m (ci_Name ci) ci) m cols). ci_Name c = n) \<and>
         fst ` set (foldl (\<lambda>m ci. map_put m (ci_Name ci) ci) m cols) = fst ` set m \<union> ci_Name ` set cols"
  using assms
proof (induction cols arbitrary: m)
  case Nil
  then show ?case by simp
next
  case (Cons c cols)
  have d: "distinct (map fst (map_put m (ci_Name c) c))"
    using Cons.prems(1) by (simp add: map_put_def AList.distinct_update)
  have s: "set (map_put m (ci_Name c) c) \<subseteq> insert (ci_Name c, c) (set m)"
    by (rule set_map_put)
  have n: "\<forall>(n, c') \<in> set (map_put m (ci_Name c) c). ci_Name c' = n"
    using Cons.prems(2) s by auto
  have k: "fst ` set (map_put m (ci_Name c) c) = insert (ci_Name c) (fst ` set m)"
    by (simp add: map_put_def AList.dom_update)
  from Cons.IH[OF d n] k show ?case by auto
qed

lemma nameToColumn_props:
  "distinct (map fst (nameToColumn cols))"
  "(n, c) \<in> set (nameToColumn cols) \<Longrightarrow> ci_Name c = n"
  "fst ` set (nameToColumn cols) = ci_Name ` set cols"
  using nameToColumn_acc[of "[]" cols] by (auto simp: nameToColumn_def)

lemma nameToColumn_None:
  "map_of (nameToColumn cols) n = None \<longleftrightarrow> n \<notin> ci_Name ` set cols"
  by (simp add: map_of_eq_None_iff nameToColumn_props(3))

lemma nameToColumn_Some:
  "map_of (nameToColumn cols) n = Some c \<Longrightarrow> ci_Name c = n"
  by (blast dest: map_of_SomeD nameToColumn_props(2))

lemma map_visit_keys:
  assumes "visits_each_key_once rng" and "distinct (map fst m)"
  shows "map_visit rng m = map (\<lambda>k. (k, the (map_of m k))) (rng (map fst m))"
proof -
  have "set (rng (map fst m)) = set (map fst m)"
    using assms by (simp add: visits_each_key_once_def)
  then have "\<forall>k \<in> set (rng (map fst m)). map_of m k \<noteq> None"
    by (simp add: map_of_eq_None_iff)
  then have "List.map_filter (\<lambda>k. map_option (Pair k) (map_of m k)) ks =
             map (\<lambda>k. (k, the (map_of m k))) ks" if "set ks \<subseteq> set (rng (map fst m))" for ks
    using that by (induction ks) (auto simp: List.map_filter_simps)
  then show ?thesis by (simp add: map_visit_def)
qed

lemma removed_columns:
  assumes "visits_each_key_once rng"
  shows "[getWrappedColumnName oldCi.
            (name, oldCi) \<leftarrow> map_visit rng (nameToColumn olds),
            map_of (nameToColumn news) name = None] =
         map (\<lambda>n. [backtick] @ n @ [backtick])
           (filter (\<lambda>n. n \<notin> ci_Name ` set news) (rng (map fst (nameToColumn olds))))"
proof -
  have sub: "set (rng (map fst (nameToColumn olds))) = set (map fst (nameToColumn olds))"
    using assms nameToColumn_props(1) by (simp add: visits_each_key_once_def)
  have w: "getWrappedColumnName (the (map_of (nameToColumn olds) k)) = [backtick] @ k @ [backtick]"
    if "k \<in> set (rng (map fst (nameToColumn olds)))" for k
  proof -
    from that sub obtain c where "map_of (nameToColumn olds) k = Some c"
      by (metis map_of_eq_None_iff not_Some_eq set_map)
    then show ?thesis using nameToColumn_Some by (simp add: getWrappedColumnName_def)
  qed
  have "concat (map (\<lambda>(name, oldCi). if map_of (nameToColumn news) name = None then [getWrappedColumnName oldCi] else [])
           (map (\<lambda>k. (k, the (map_of (nameToColumn olds) k))) ks)) =
        map (\<lambda>n. [backtick] @ n @ [backtick]) (filter (\<lambda>n. n \<notin> ci_Name ` set news) ks)"
    if "set ks \<subseteq> set (rng (map fst (nameToColumn olds)))" for ks
    using that by (induction ks) (auto simp: nameToColumn_None w)
  then show ?thesis
    by (simp add: map_visit_keys[OF assms nameToColumn_props(1)])
qed

lemma addOrRemoveColumnStatements_closed:
  assumes "visits_each_key_once rng"
  shows "addOrRemoveColumnStatements rng ti oldti statements ts =
     statements @
     (let removed = filter (\<lambda>n. n \<notin> ci_Name ` set (ColumnInfos ti))
                      (rng (map fst (nameToColumn (ColumnInfos oldti))))
      in if removed = [] then []
         else [''ALTER '' @ ts @ '' '' @ SQLFullName ti @ '' DROP COLUMN IF EXISTS ('' @
               strings_Join (map (\<lambda>n. [backtick] @ n @ [backtick]) removed) '', '' @ '')'']) @
     map (\<lambda>i. ''ALTER '' @ ts @ '' '' @ SQLFullName ti @ '' ADD COLUMN '' @
               serializeColumnInfo (ColumnInfos ti ! i) @
               (if i = 0 then '' FIRST''
                else '' AFTER '' @ ci_Name (ColumnInfos ti ! (i - 1))))
       [i \<leftarrow> [0..<length (ColumnInfos ti)].
          ci_Name (ColumnInfos ti ! i) \<notin> ci_Name ` set (ColumnInfos oldti)]"
proof -
  have body: "(\<lambda>statements i.
              let newCi = ColumnInfos ti ! i in
              if map_of (nameToColumn (ColumnInfos oldti)) (ci_Name newCi) = None
              then (let newCiStatement = serializeColumnInfo newCi in
                    if i = 0
                    then statements @
                         [''ALTER '' @ ts @ '' '' @ SQLFullName ti @
                          '' ADD COLUMN '' @ newCiStatement @ '' FIRST'']
                    else statements @
                         [''ALTER '' @ ts @ '' '' @ SQLFullName ti @
                          '' ADD COLUMN '' @ newCiStatement @ '' AFTER '' @
                          ci_Name (ColumnInfos ti ! (i - 1))])
              else statements) =
        (\<lambda>statements i.
           if ci_Name (ColumnInfos ti ! i) \<notin> ci_Name ` set (ColumnInfos oldti)
           then statements @
                [''ALTER '' @ ts @ '' '' @ SQLFullName ti @ '' ADD COLUMN '' @
                 serializeColumnInfo (ColumnInfos ti ! i) @
                 (if i = 0 then '' FIRST''
                  else '' AFTER '' @ ci_Name (ColumnInfos ti ! (i - 1)))]
           else statements)"
    by (intro ext) (simp add: Let_def nameToColumn_None)
  show ?thesis
    unfolding addOrRemoveColumnStatements_def Let_def[of "nameToColumn (ColumnInfos oldti)"]
      Let_def[of "nameToColumn (ColumnInfos ti)"] removed_columns[OF assms]
    by (simp only: body foldl_append_if) (simp add: Let_def)
qed

text \<open>
  Claim C4. On the path for added and removed columns (the column counts differ),
  after the statements that are not about columns \<open>diff\<close> emits at most one
  \<open>DROP COLUMN IF EXISTS\<close> statement: none when every previous column name is among
  the desired names, and otherwise one that lists, in backticks, each previous name
  that is absent from the desired names once. It stands before every
  \<open>ADD COLUMN\<close> statement. Then each desired column whose name is absent from the
  previous names gets one \<open>ADD COLUMN\<close> statement, in the desired order: with
  \<open>FIRST\<close> at index 0, and otherwise with \<open>AFTER\<close> and the name of the desired column
  at the index before.
\<close>

theorem diff_add_or_remove_columns:
  assumes "visits_each_key_once rng"
    and "length (ColumnInfos ti) \<noteq> length (ColumnInfos oldti)"
  shows "\<exists>pre removed.
     diff rng (ti\<lparr>ColumnInfos := []\<rparr>) (oldti\<lparr>ColumnInfos := []\<rparr>) = Inr (pre, None) \<and>
     distinct removed \<and>
     set removed = ci_Name ` set (ColumnInfos oldti) - ci_Name ` set (ColumnInfos ti) \<and>
     diff rng ti oldti =
       Inr (pre @
            (if removed = [] then []
             else [''ALTER '' @ getTableTypeString ti @ '' '' @ SQLFullName ti @
                   '' DROP COLUMN IF EXISTS ('' @
                   strings_Join (map (\<lambda>n. [backtick] @ n @ [backtick]) removed) '', '' @
                   '')'']) @
            map (\<lambda>i. ''ALTER '' @ getTableTypeString ti @ '' '' @ SQLFullName ti @
                      '' ADD COLUMN '' @ serializeColumnInfo (ColumnInfos ti ! i) @
                      (if i = 0 then '' FIRST''
                       else '' AFTER '' @ ci_Name (ColumnInfos ti ! (i - 1))))
              [i \<leftarrow> [0..<length (ColumnInfos ti)].
                 ci_Name (ColumnInfos ti ! i) \<notin> ci_Name ` set (ColumnInfos oldti)],
            None)"
proof -
  define removed where
    "removed = filter (\<lambda>n. n \<notin> ci_Name ` set (ColumnInfos ti))
                 (rng (map fst (nameToColumn (ColumnInfos oldti))))"
  have keys: "distinct (rng (map fst (nameToColumn (ColumnInfos oldti))))"
    "set (rng (map fst (nameToColumn (ColumnInfos oldti)))) = ci_Name ` set (ColumnInfos oldti)"
    using assms(1) nameToColumn_props(1)[of "ColumnInfos oldti"]
      nameToColumn_props(3)[of "ColumnInfos oldti"]
    by (simp_all add: visits_each_key_once_def)
  have d: "distinct removed" using keys(1) by (simp add: removed_def)
  have s: "set removed = ci_Name ` set (ColumnInfos oldti) - ci_Name ` set (ColumnInfos ti)"
    using keys(2) by (auto simp: removed_def)
  obtain pre where
    pre: "diff rng (ti\<lparr>ColumnInfos := []\<rparr>) (oldti\<lparr>ColumnInfos := []\<rparr>) = Inr (pre, None)" and
    full: "diff rng ti oldti =
       (case getStatementsForColumnDiffs rng ti oldti pre (getTableTypeString ti) of
          Inl p \<Rightarrow> Inl p
        | Inr statements \<Rightarrow> Inr (statements, None))"
    using diff_columns_split by blast
  have "getStatementsForColumnDiffs rng ti oldti pre (getTableTypeString ti) =
        Inr (addOrRemoveColumnStatements rng ti oldti pre (getTableTypeString ti))"
    using assms(2) by (simp add: getStatementsForColumnDiffs_def)
  with full have "diff rng ti oldti =
      Inr (addOrRemoveColumnStatements rng ti oldti pre (getTableTypeString ti), None)"
    by simp
  then show ?thesis
    unfolding addOrRemoveColumnStatements_closed[OF assms(1)] Let_def removed_def[symmetric]
    using pre d s by blast
qed

lemma distinct_singleton: "distinct xs \<Longrightarrow> set xs = {x} \<Longrightarrow> xs = [x]"
proof (cases xs)
  case Nil
  assume "set xs = {x}"
  with Nil show ?thesis by simp
next
  case (Cons y ys)
  assume d: "distinct xs" and s: "set xs = {x}"
  from s Cons have y: "y = x" and sub: "set ys \<subseteq> {x}" by auto
  from d Cons y have "x \<notin> set ys" by simp
  with sub have "ys = []" by (cases ys) auto
  with Cons y show ?thesis by simp
qed

theorem diff_add_or_remove_columns_witness:
  "visits_each_key_once id \<and>
   diff id
     (exampleTable\<lparr>ColumnInfos := [exampleColumn ''x'' ''int'', exampleColumn ''a'' ''int'',
                                   exampleColumn ''c'' ''int'']\<rparr>)
     (exampleTable\<lparr>ColumnInfos := [exampleColumn ''a'' ''int'', exampleColumn ''b'' ''int'']\<rparr>) =
   Inr ([''ALTER TABLE `c`.`s`.`n` DROP COLUMN IF EXISTS (`b`)'',
         ''ALTER TABLE `c`.`s`.`n` ADD COLUMN `x` int FIRST'',
         ''ALTER TABLE `c`.`s`.`n` ADD COLUMN `c` int AFTER a''], None)"
proof -
  let ?new = "exampleTable\<lparr>ColumnInfos := [exampleColumn ''x'' ''int'', exampleColumn ''a'' ''int'',
                                   exampleColumn ''c'' ''int'']\<rparr>"
  let ?old = "exampleTable\<lparr>ColumnInfos := [exampleColumn ''a'' ''int'', exampleColumn ''b'' ''int'']\<rparr>"
  have v: "visits_each_key_once id" by (simp add: visits_each_key_once_def)
  have l: "length (ColumnInfos ?new) \<noteq> length (ColumnInfos ?old)" by simp
  from diff_add_or_remove_columns[OF v l] obtain pre removed where
    p1: "diff id (?new\<lparr>ColumnInfos := []\<rparr>) (?old\<lparr>ColumnInfos := []\<rparr>) = Inr (pre, None)" and
    p2: "distinct removed" and
    p3: "set removed = ci_Name ` set (ColumnInfos ?old) - ci_Name ` set (ColumnInfos ?new)" and
    p4: "diff id ?new ?old =
       Inr (pre @
            (if removed = [] then []
             else [''ALTER '' @ getTableTypeString ?new @ '' '' @ SQLFullName ?new @
                   '' DROP COLUMN IF EXISTS ('' @
                   strings_Join (map (\<lambda>n. [backtick] @ n @ [backtick]) removed) '', '' @
                   '')'']) @
            map (\<lambda>i. ''ALTER '' @ getTableTypeString ?new @ '' '' @ SQLFullName ?new @
                      '' ADD COLUMN '' @ serializeColumnInfo (ColumnInfos ?new ! i) @
                      (if i = 0 then '' FIRST''
                       else '' AFTER '' @ ci_Name (ColumnInfos ?new ! (i - 1))))
              [i \<leftarrow> [0..<length (ColumnInfos ?new)].
                 ci_Name (ColumnInfos ?new ! i) \<notin> ci_Name ` set (ColumnInfos ?old)],
            None)"
    by blast
  have "diff id (?new\<lparr>ColumnInfos := []\<rparr>) (?old\<lparr>ColumnInfos := []\<rparr>) = Inr ([], None)"
    by code_simp
  with p1 have pre: "pre = []" by simp
  have "ci_Name ` set (ColumnInfos ?old) - ci_Name ` set (ColumnInfos ?new) = {''b''}"
    by (auto simp: exampleColumn_def)
  with p2 p3 have removed: "removed = [''b'']" by (simp add: distinct_singleton)
  have dropped:
    "''ALTER '' @ getTableTypeString ?new @ '' '' @ SQLFullName ?new @
     '' DROP COLUMN IF EXISTS ('' @
     strings_Join (map (\<lambda>n. [backtick] @ n @ [backtick]) [''b'']) '', '' @ '')'' =
     ''ALTER TABLE `c`.`s`.`n` DROP COLUMN IF EXISTS (`b`)''"
    by code_simp
  have added:
    "map (\<lambda>i. ''ALTER '' @ getTableTypeString ?new @ '' '' @ SQLFullName ?new @
               '' ADD COLUMN '' @ serializeColumnInfo (ColumnInfos ?new ! i) @
               (if i = 0 then '' FIRST''
                else '' AFTER '' @ ci_Name (ColumnInfos ?new ! (i - 1))))
       [i \<leftarrow> [0..<length (ColumnInfos ?new)].
          ci_Name (ColumnInfos ?new ! i) \<notin> ci_Name ` set (ColumnInfos ?old)] =
     [''ALTER TABLE `c`.`s`.`n` ADD COLUMN `x` int FIRST'',
      ''ALTER TABLE `c`.`s`.`n` ADD COLUMN `c` int AFTER a'']"
    by code_simp
  show ?thesis
    using v p4 unfolding pre removed added dropped by simp
qed

section \<open>Removed properties\<close>

lemma foldl_extends:
  assumes "\<And>st i. \<exists>ys. f st i = st @ ys"
  shows "\<exists>xs. foldl f st is = st @ xs"
proof (induction "is" arbitrary: st)
  case Nil
  show ?case by simp
next
  case (Cons i "is")
  obtain ys where ys: "f st i = st @ ys" using assms by blast
  obtain zs where "foldl f (st @ ys) is = (st @ ys) @ zs" using Cons.IH by blast
  with ys show ?case by simp
qed

lemma addOrRemoveColumnStatements_extends:
  "\<exists>xs. addOrRemoveColumnStatements rng ti oldti statements ts = statements @ xs"
proof -
  define f where "f = (\<lambda>statements i.
              let newCi = ColumnInfos ti ! i in
              if map_of (nameToColumn (ColumnInfos oldti)) (ci_Name newCi) = None
              then (let newCiStatement = serializeColumnInfo newCi in
                    if i = 0
                    then statements @
                         [''ALTER '' @ ts @ '' '' @ SQLFullName ti @
                          '' ADD COLUMN '' @ newCiStatement @ '' FIRST'']
                    else statements @
                         [''ALTER '' @ ts @ '' '' @ SQLFullName ti @
                          '' ADD COLUMN '' @ newCiStatement @ '' AFTER '' @
                          ci_Name (ColumnInfos ti ! (i - 1))])
              else statements)"
  have step: "\<exists>ys. f st i = st @ ys" for st i
    by (simp add: f_def Let_def)
  have loop: "\<exists>xs. foldl f st is = st @ xs" for st "is"
    using step by (rule foldl_extends)
  define rs where "rs =
     [getWrappedColumnName oldCi.
        (name, oldCi) \<leftarrow> map_visit rng (nameToColumn (ColumnInfos oldti)),
        map_of (nameToColumn (ColumnInfos ti)) name = None]"
  define ds where "ds =
     (if length rs > 0
      then [''ALTER '' @ ts @ '' '' @ SQLFullName ti @ '' DROP COLUMN IF EXISTS ('' @
            strings_Join rs '', '' @ '')'']
      else [])"
  have ds: "addOrRemoveColumnStatements rng ti oldti statements ts =
      foldl f (statements @ ds) [0..<length (ColumnInfos ti)]"
  proof (cases "length rs > 0")
    case True
    then show ?thesis
      unfolding addOrRemoveColumnStatements_def f_def ds_def Let_def rs_def[symmetric]
      by simp
  next
    case False
    then show ?thesis
      unfolding addOrRemoveColumnStatements_def f_def ds_def Let_def rs_def[symmetric]
      by simp
  qed
  obtain xs where "foldl f (statements @ ds) [0..<length (ColumnInfos ti)] =
      (statements @ ds) @ xs"
    using loop by blast
  with ds show ?thesis by simp
qed

lemma getStatementsForColumnDiffs_appends:
  "\<exists>xs. getStatementsForColumnDiffs rng ti oldti statements ts = Inr (statements @ xs)"
proof (cases "length (ColumnInfos ti) = length (ColumnInfos oldti)")
  case True
  then have "\<forall>i \<in> set [0..<length (ColumnInfos ti)]. i < length (ColumnInfos oldti)"
    by simp
  from alterExistingColumns_loop_total[OF this, of ti ts statements] True show ?thesis
    by (simp add: getStatementsForColumnDiffs_def alterExistingColumnStatements_def)
next
  case False
  then show ?thesis
    using addOrRemoveColumnStatements_extends[of rng ti oldti statements ts]
    by (auto simp: getStatementsForColumnDiffs_def)
qed

lemma getStatementsForColumnDiffs_empty:
  "ColumnInfos ti = [] \<Longrightarrow> ColumnInfos oldti = [] \<Longrightarrow>
   getStatementsForColumnDiffs rng ti oldti statements ts = Inr statements"
  by (simp add: getStatementsForColumnDiffs_def alterExistingColumnStatements_def)

lemma map_DeepEqual_keys:
  assumes "map_DeepEqual m m'" and "map_wf m" and "map_has m' k"
  shows "map_has m k"
proof -
  let ?es = "map_range m" and ?es' = "map_range m'"
  have len: "length ?es = length ?es'"
    using assms(1) by (simp add: map_DeepEqual_def map_len_def map_range_def split: option.splits)
  have "\<forall>(k, v) \<in> set ?es. map_of ?es' k = Some v"
    using assms(1) by (simp add: map_DeepEqual_def list_all_iff)
  then have sub: "fst ` set ?es \<subseteq> fst ` set ?es'"
    by (force dest: map_of_SomeD)
  have "card (fst ` set ?es') \<le> length ?es'"
    by (metis card_length length_map set_map)
  also have "\<dots> = card (fst ` set ?es)"
    using assms(2) len by (metis distinct_card length_map map_wf_def set_map)
  finally have "fst ` set ?es = fst ` set ?es'"
    using sub by (simp add: card_seteq)
  then show ?thesis
    using assms(3) by (simp add: map_has_def map_of_eq_None_iff)
qed

text \<open>
  Claim C1, as amended. \<open>diff\<close> does not consult \<open>sqlTableIsManagedProperty\<close> for
  the keys it removes: whenever the previous property map has a key, managed or not,
  that the desired property map does not have, the statement list has an
  \<open>UNSET TBLPROPERTIES IF EXISTS\<close> statement that lists every key of the previous map
  absent from the desired one, this key among them, followed by the
  \<open>SET TBLPROPERTIES\<close> statement (from which alone the managed keys are filtered).
  Keeping a managed key out of the removals is the work of the plan customisation
  that runs before: it copies such a key from the old into the new property map.
\<close>

theorem diff_unsets_absent_keys:
  assumes "map_wf (Properties ti)"
    and "map_has (Properties oldti) key" and "\<not> map_has (Properties ti) key"
  shows "\<exists>pre post.
     key \<in> set [k. (k, v) \<leftarrow> map_range (Properties oldti), \<not> map_has (Properties ti) k] \<and>
     diff rng ti oldti =
       Inr (pre @
            [''ALTER '' @ getTableTypeString ti @ '' '' @ SQLFullName ti @
             '' UNSET TBLPROPERTIES IF EXISTS ('' @
             strings_Join
               [k. (k, v) \<leftarrow> map_range (Properties oldti), \<not> map_has (Properties ti) k]
               '','' @ '')'',
             ''ALTER '' @ getTableTypeString ti @ '' '' @ SQLFullName ti @
             '' SET TBLPROPERTIES ('' @ serializeProperties ti @ '')''] @
            post,
            None)"
proof -
  let ?removeProps =
    "[k. (k, v) \<leftarrow> map_range (Properties oldti), \<not> map_has (Properties ti) k]"
  let ?ti0 = "ti\<lparr>ColumnInfos := []\<rparr>"
    and ?oldti0 = "oldti\<lparr>ColumnInfos := [], Properties := Properties ti\<rparr>"
  have differ: "\<not> map_DeepEqual (Properties ti) (Properties oldti)"
    using assms map_DeepEqual_keys by blast
  have same: "map_DeepEqual (Properties ti) (Properties ti)"
    using assms(1) by (rule map_DeepEqual_refl)
  obtain v where "(key, v) \<in> set (map_range (Properties oldti))"
    using assms(2) by (auto simp: map_has_def dest: map_of_SomeD)
  then have key: "key \<in> set ?removeProps"
    using assms(3) by force
  then have nonempty: "length ?removeProps > 0" by (cases ?removeProps) simp_all
  have shape: "diff rng ti oldti =
     (case diff rng ?ti0 ?oldti0 of
        Inl p \<Rightarrow> Inl p
      | Inr (pre, e) \<Rightarrow>
          (case getStatementsForColumnDiffs rng ti oldti
                  (pre @
                   [''ALTER '' @ getTableTypeString ti @ '' '' @ SQLFullName ti @
                    '' UNSET TBLPROPERTIES IF EXISTS ('' @
                    strings_Join ?removeProps '','' @ '')'',
                    ''ALTER '' @ getTableTypeString ti @ '' '' @ SQLFullName ti @
                    '' SET TBLPROPERTIES ('' @ serializeProperties ti @ '')''])
                  (getTableTypeString ti) of
             Inl p \<Rightarrow> Inl p
           | Inr statements \<Rightarrow> Inr (statements, None)))"
    unfolding diff_def
    using differ same nonempty
    by (simp add: ColumnInfos_ignored getStatementsForColumnDiffs_empty Let_def
        split del: if_split cong: if_cong)
  obtain pre where pre: "diff rng ?ti0 ?oldti0 = Inr (pre, None)"
    using diff_returns by blast
  obtain post where
    "getStatementsForColumnDiffs rng ti oldti
       (pre @
        [''ALTER '' @ getTableTypeString ti @ '' '' @ SQLFullName ti @
         '' UNSET TBLPROPERTIES IF EXISTS ('' @ strings_Join ?removeProps '','' @ '')'',
         ''ALTER '' @ getTableTypeString ti @ '' '' @ SQLFullName ti @
         '' SET TBLPROPERTIES ('' @ serializeProperties ti @ '')''])
       (getTableTypeString ti) =
     Inr ((pre @
        [''ALTER '' @ getTableTypeString ti @ '' '' @ SQLFullName ti @
         '' UNSET TBLPROPERTIES IF EXISTS ('' @ strings_Join ?removeProps '','' @ '')'',
         ''ALTER '' @ getTableTypeString ti @ '' '' @ SQLFullName ti @
         '' SET TBLPROPERTIES ('' @ serializeProperties ti @ '')'']) @ post)"
    using getStatementsForColumnDiffs_appends by blast
  with shape pre key show ?thesis by auto
qed

theorem diff_unsets_absent_keys_witness:
  "map_wf (Properties (exampleTable\<lparr>Properties := Some [(''owner'', ''me'')]\<rparr>)) \<and>
   map_has (Properties (exampleTable\<lparr>Properties :=
      Some [(''team'', ''data''), (''owner'', ''me''), (''delta.minReaderVersion'', ''1'')]\<rparr>))
      ''delta.minReaderVersion'' \<and>
   \<not> map_has (Properties (exampleTable\<lparr>Properties := Some [(''owner'', ''me'')]\<rparr>))
      ''delta.minReaderVersion'' \<and>
   (\<exists>pre post.
      diff id
        (exampleTable\<lparr>Properties := Some [(''owner'', ''me'')]\<rparr>)
        (exampleTable\<lparr>Properties :=
           Some [(''team'', ''data''), (''owner'', ''me''), (''delta.minReaderVersion'', ''1'')]\<rparr>) =
      Inr (pre @
           [''ALTER TABLE `c`.`s`.`n` UNSET TBLPROPERTIES IF EXISTS (team,delta.minReaderVersion)'',
            ''ALTER TABLE `c`.`s`.`n` SET TBLPROPERTIES ('owner'='me')''] @
           post, None))"
proof -
  let ?new = "exampleTable\<lparr>Properties := Some [(''owner'', ''me'')]\<rparr>"
  let ?old = "exampleTable\<lparr>Properties :=
           Some [(''team'', ''data''), (''owner'', ''me''), (''delta.minReaderVersion'', ''1'')]\<rparr>"
  have h1: "map_wf (Properties ?new)" by (simp add: map_wf_def map_range_def)
  have h2: "map_has (Properties ?old) ''delta.minReaderVersion''"
    by (simp add: map_has_def map_range_def)
  have h3: "\<not> map_has (Properties ?new) ''delta.minReaderVersion''"
    by (simp add: map_has_def map_range_def)
  have unset:
    "''ALTER '' @ getTableTypeString ?new @ '' '' @ SQLFullName ?new @
     '' UNSET TBLPROPERTIES IF EXISTS ('' @
     strings_Join
       [k. (k, v) \<leftarrow> map_range (Properties ?old), \<not> map_has (Properties ?new) k]
       '','' @ '')'' =
     ''ALTER TABLE `c`.`s`.`n` UNSET TBLPROPERTIES IF EXISTS (team,delta.minReaderVersion)''"
    by code_simp
  have setp:
    "''ALTER '' @ getTableTypeString ?new @ '' '' @ SQLFullName ?new @
     '' SET TBLPROPERTIES ('' @ serializeProperties ?new @ '')'' =
     ''ALTER TABLE `c`.`s`.`n` SET TBLPROPERTIES ('owner'='me')''"
    by code_simp
  from diff_unsets_absent_keys[OF h1 h2 h3, of id] show ?thesis
    unfolding unset setp using h1 h2 h3 by blast
qed

text \<open>
  Claim C1 fails on the code. The previous table has the managed key
  \<open>delta.minReaderVersion\<close> and the desired table does not: \<open>diff\<close> lists the key in
  its \<open>UNSET TBLPROPERTIES\<close> statement.
\<close>

theorem diff_unsets_managed_property:
  "sqlTableIsManagedProperty ''delta.minReaderVersion'' \<and>
   map_has (Properties (exampleTable\<lparr>Properties :=
      Some [(''owner'', ''me''), (''delta.minReaderVersion'', ''1'')]\<rparr>)) ''delta.minReaderVersion'' \<and>
   \<not> map_has (Properties (exampleTable\<lparr>Properties := Some [(''owner'', ''me'')]\<rparr>))
       ''delta.minReaderVersion'' \<and>
   diff id
     (exampleTable\<lparr>Properties := Some [(''owner'', ''me'')]\<rparr>)
     (exampleTable\<lparr>Properties :=
        Some [(''owner'', ''me''), (''delta.minReaderVersion'', ''1'')]\<rparr>) =
   Inr ([''ALTER TABLE `c`.`s`.`n` UNSET TBLPROPERTIES IF EXISTS (delta.minReaderVersion)'',
         ''ALTER TABLE `c`.`s`.`n` SET TBLPROPERTIES ('owner'='me')''], None)"
  by code_simp

section \<open>Validation of a type change\<close>

lemma oldColumn_fields: "assertMap (oldColumn ci) = Inr (oldColumnFields ci)"
  by (simp add: oldColumn_def assertMap_def)

lemma oldColumn_index:
  "map_index (oldColumnFields ci) ''name'' = TfString (ci_Name ci)"
  "map_index (oldColumnFields ci) ''type'' = TfString (ci_Type ci)"
  "map_index (oldColumnFields ci) ''comment'' = TfString (ci_Comment ci)"
  "map_index (oldColumnFields ci) ''nullable'' = TfBool (ci_Nullable ci)"
  by (simp_all add: map_index_def oldColumnFields_def)

lemma assertString_TfString: "assertString (TfString s) = Inr s"
  by (simp add: assertString_def)

lemma assertNoColumnTypeDiff_loop_result:
  assumes "i + length olds = length news"
  shows "assertNoColumnTypeDiff_loop ToLower i (map oldColumn olds) news =
     Inr (if \<exists>j < length olds.
               getColumnType ToLower (ci_Type (olds ! j)) \<noteq> getColumnType ToLower (ci_Type (news ! (i + j)))
          then Some typeChangeError else None)"
  using assms
proof (induction olds arbitrary: i)
  case Nil
  then show ?case by simp
next
  case (Cons c olds)
  from Cons.prems have i: "i < length news" and n: "Suc i + length olds = length news"
    by simp_all
  show ?case
  proof (cases "getColumnType ToLower (ci_Type c) = getColumnType ToLower (ci_Type (news ! i))")
    case False
    then have "\<exists>j < length (c # olds).
        getColumnType ToLower (ci_Type ((c # olds) ! j)) \<noteq> getColumnType ToLower (ci_Type (news ! (i + j)))"
      by (intro exI[of _ 0]) simp
    with False i show ?thesis
      by (simp add: oldColumn_fields oldColumn_index assertString_TfString)
  next
    case True
    have "(\<exists>j < length (c # olds).
        getColumnType ToLower (ci_Type ((c # olds) ! j)) \<noteq> getColumnType ToLower (ci_Type (news ! (i + j)))) =
      (\<exists>j < length olds.
        getColumnType ToLower (ci_Type (olds ! j)) \<noteq> getColumnType ToLower (ci_Type (news ! (Suc i + j))))"
      using True by (auto simp: less_Suc_eq_0_disj)
    with True i Cons.IH[OF n] show ?thesis
      by (simp add: oldColumn_fields oldColumn_index assertString_TfString)
  qed
qed

text \<open>
  On ASCII text every \<open>ToLower\<close> that does there what the library does gives the
  normalisation that \<open>asciiToLower\<close> gives, and \<open>asciiToLower\<close> is one such function.
\<close>

lemma getColumnType_ascii:
  "lowers_ascii ToLower \<Longrightarrow> isASCII s \<Longrightarrow>
   getColumnType ToLower s = getColumnType asciiToLower s"
  by (simp add: getColumnType_def lowers_ascii_def)

lemma lowers_ascii_asciiToLower: "lowers_ascii asciiToLower"
  by (simp add: lowers_ascii_def)

lemma getColumnType_aliases:
  assumes "lowers_ascii ToLower"
  shows "map (getColumnType ToLower)
     [''Integer'', ''INTEGER'', ''Long'', ''REAL'', ''Short'', ''byte'', ''Decimal'', ''DEC'',
      ''numeric'', ''String'', ''BIGINT'', ''int''] =
     [''int'', ''int'', ''bigint'', ''float'', ''smallint'', ''tinyint'', ''decimal(10,0)'',
      ''decimal(10,0)'', ''decimal(10,0)'', ''string'', ''bigint'', ''int'']"
proof -
  have ascii: "list_all isASCII
     [''Integer'', ''INTEGER'', ''Long'', ''REAL'', ''Short'', ''byte'', ''Decimal'', ''DEC'',
      ''numeric'', ''String'', ''BIGINT'', ''int'']"
    by code_simp
  have "map (getColumnType ToLower)
     [''Integer'', ''INTEGER'', ''Long'', ''REAL'', ''Short'', ''byte'', ''Decimal'', ''DEC'',
      ''numeric'', ''String'', ''BIGINT'', ''int''] =
     map (getColumnType asciiToLower)
     [''Integer'', ''INTEGER'', ''Long'', ''REAL'', ''Short'', ''byte'', ''Decimal'', ''DEC'',
      ''numeric'', ''String'', ''BIGINT'', ''int'']"
    using ascii unfolding list_all_iff
    by (intro map_cong refl getColumnType_ascii[OF assms]) blast
  also have "\<dots> =
     [''int'', ''int'', ''bigint'', ''float'', ''smallint'', ''tinyint'', ''decimal(10,0)'',
      ''decimal(10,0)'', ''decimal(10,0)'', ''string'', ''bigint'', ''int'']"
    by code_simp
  finally show ?thesis .
qed

text \<open>
  Claim C6. When the old and the new column counts are equal, the validation is
  \<open>assertNoColumnTypeDiff\<close>, and on old columns of the form the plan hands over
  it fails, with the error of a type change, if and only if at some position the
  normalised types of the old and the new column differ; otherwise it returns no
  error. This holds whatever \<open>strings.ToLower\<close> returns. The normalisation
  \<open>getColumnType\<close> puts the type in lower case with \<open>strings.ToLower\<close> and then applies
  the alias table; with what the library does on ASCII text, the upper-case and
  mixed-case spellings normalise as the table says: \<open>integer\<close> to \<open>int\<close>, \<open>long\<close> to
  \<open>bigint\<close>, \<open>real\<close> to \<open>float\<close>, \<open>short\<close> to \<open>smallint\<close>, \<open>byte\<close> to \<open>tinyint\<close>, and
  \<open>decimal\<close>, \<open>dec\<close> and \<open>numeric\<close> to \<open>decimal(10,0)\<close>. In particular the old type
  \<open>Integer\<close> against the new type \<open>int\<close> does not fail.
\<close>

theorem assertNoColumnTypeDiff_iff:
  assumes "length olds = length (ColumnInfos newTable)"
  shows "columnChangesCustomizeDiff ToLower rng (TfList (map oldColumn olds)) newTable =
     Inr (if \<exists>j < length olds.
               getColumnType ToLower (ci_Type (olds ! j)) \<noteq>
               getColumnType ToLower (ci_Type (ColumnInfos newTable ! j))
          then Some typeChangeError else None) \<and>
   assertNoColumnTypeDiff ToLower (map oldColumn olds) (ColumnInfos newTable) =
     Inr (if \<exists>j < length olds.
               getColumnType ToLower (ci_Type (olds ! j)) \<noteq>
               getColumnType ToLower (ci_Type (ColumnInfos newTable ! j))
          then Some typeChangeError else None) \<and>
   (\<forall>t. getColumnType ToLower t =
          (case map_of columnTypeAliases (ToLower t) of
             Some alias \<Rightarrow> alias
           | None \<Rightarrow> ToLower t)) \<and>
   (lowers_ascii ToLower \<longrightarrow>
      map (getColumnType ToLower)
        [''Integer'', ''INTEGER'', ''Long'', ''REAL'', ''Short'', ''byte'', ''Decimal'',
         ''DEC'', ''numeric'', ''String'', ''BIGINT'', ''int''] =
        [''int'', ''int'', ''bigint'', ''float'', ''smallint'', ''tinyint'', ''decimal(10,0)'',
         ''decimal(10,0)'', ''decimal(10,0)'', ''string'', ''bigint'', ''int''] \<and>
      assertNoColumnTypeDiff ToLower
        [oldColumn (old\<lparr>ci_Type := ''Integer''\<rparr>)] [new\<lparr>ci_Type := ''int''\<rparr>] = Inr None)"
proof -
  have a: "assertNoColumnTypeDiff ToLower (map oldColumn olds) (ColumnInfos newTable) =
     Inr (if \<exists>j < length olds.
               getColumnType ToLower (ci_Type (olds ! j)) \<noteq>
               getColumnType ToLower (ci_Type (ColumnInfos newTable ! j))
          then Some typeChangeError else None)"
    using assertNoColumnTypeDiff_loop_result[of 0 olds "ColumnInfos newTable" ToLower] assms
    by (simp add: assertNoColumnTypeDiff_def)
  have b: "columnChangesCustomizeDiff ToLower rng (TfList (map oldColumn olds)) newTable =
       assertNoColumnTypeDiff ToLower (map oldColumn olds) (ColumnInfos newTable)"
    using assms by (simp add: columnChangesCustomizeDiff_def assertList_def)
  have c: "\<forall>t. getColumnType ToLower t =
          (case map_of columnTypeAliases (ToLower t) of
             Some alias \<Rightarrow> alias
           | None \<Rightarrow> ToLower t)"
    by (simp add: getColumnType_def Let_def)
  have d: "map (getColumnType ToLower)
        [''Integer'', ''INTEGER'', ''Long'', ''REAL'', ''Short'', ''byte'', ''Decimal'',
         ''DEC'', ''numeric'', ''String'', ''BIGINT'', ''int''] =
        [''int'', ''int'', ''bigint'', ''float'', ''smallint'', ''tinyint'', ''decimal(10,0)'',
         ''decimal(10,0)'', ''decimal(10,0)'', ''string'', ''bigint'', ''int''] \<and>
      assertNoColumnTypeDiff ToLower
        [oldColumn (old\<lparr>ci_Type := ''Integer''\<rparr>)] [new\<lparr>ci_Type := ''int''\<rparr>] = Inr None"
    if low: "lowers_ascii ToLower"
  proof -
    note al = getColumnType_aliases[OF low]
    from al have same: "getColumnType ToLower ''Integer'' = getColumnType ToLower ''int''"
      by simp
    have "assertNoColumnTypeDiff ToLower
        [oldColumn (old\<lparr>ci_Type := ''Integer''\<rparr>)] [new\<lparr>ci_Type := ''int''\<rparr>] = Inr None"
      using assertNoColumnTypeDiff_loop_result[of 0 "[old\<lparr>ci_Type := ''Integer''\<rparr>]"
          "[new\<lparr>ci_Type := ''int''\<rparr>]" ToLower] same
      by (simp add: assertNoColumnTypeDiff_def)
    with al show ?thesis by simp
  qed
  from a b c d show ?thesis by simp
qed

theorem assertNoColumnTypeDiff_iff_witness:
  "lowers_ascii asciiToLower \<and>
   assertNoColumnTypeDiff asciiToLower [oldColumn (exampleColumn ''a'' ''Integer'')]
     [exampleColumn ''a'' ''int''] = Inr None \<and>
   assertNoColumnTypeDiff asciiToLower [oldColumn (exampleColumn ''a'' ''int'')]
     [exampleColumn ''a'' ''string''] = Inr (Some typeChangeError) \<and>
   map (getColumnType asciiToLower)
     [''Integer'', ''INTEGER'', ''Long'', ''REAL'', ''Short'', ''byte'', ''Decimal'',
      ''DEC'', ''numeric'', ''String'', ''BIGINT'', ''int''] =
     [''int'', ''int'', ''bigint'', ''float'', ''smallint'', ''tinyint'', ''decimal(10,0)'',
      ''decimal(10,0)'', ''decimal(10,0)'', ''string'', ''bigint'', ''int'']"
proof -
  let ?t1 = "exampleTable\<lparr>ColumnInfos := [exampleColumn ''a'' ''int'']\<rparr>"
  let ?t2 = "exampleTable\<lparr>ColumnInfos := [exampleColumn ''a'' ''string'']\<rparr>"
  have l1: "length [exampleColumn ''a'' ''Integer''] = length (ColumnInfos ?t1)" by simp
  have l2: "length [exampleColumn ''a'' ''int''] = length (ColumnInfos ?t2)" by simp
  have low: "lowers_ascii asciiToLower" by (simp add: lowers_ascii_def)
  have e1: "getColumnType asciiToLower ''Integer'' = ''int''"
    "getColumnType asciiToLower ''int'' = ''int''"
    "getColumnType asciiToLower ''string'' = ''string''"
    by code_simp+
  note t1 = assertNoColumnTypeDiff_iff[OF l1, where ToLower = asciiToLower and rng = id]
  note t2 = assertNoColumnTypeDiff_iff[OF l2, where ToLower = asciiToLower and rng = id]
  have r1: "assertNoColumnTypeDiff asciiToLower [oldColumn (exampleColumn ''a'' ''Integer'')]
     [exampleColumn ''a'' ''int''] = Inr None"
    using t1[THEN conjunct2, THEN conjunct1] by (simp add: exampleColumn_def e1)
  have r2: "assertNoColumnTypeDiff asciiToLower [oldColumn (exampleColumn ''a'' ''int'')]
     [exampleColumn ''a'' ''string''] = Inr (Some typeChangeError)"
    using t2[THEN conjunct2, THEN conjunct1] by (simp add: exampleColumn_def e1)
  have r3: "map (getColumnType asciiToLower)
     [''Integer'', ''INTEGER'', ''Long'', ''REAL'', ''Short'', ''byte'', ''Decimal'',
      ''DEC'', ''numeric'', ''String'', ''BIGINT'', ''int''] =
     [''int'', ''int'', ''bigint'', ''float'', ''smallint'', ''tinyint'', ''decimal(10,0)'',
      ''decimal(10,0)'', ''decimal(10,0)'', ''string'', ''bigint'', ''int'']"
    using t1[THEN conjunct2, THEN conjunct2, THEN conjunct2] low by blast
  from low r1 r2 r3 show ?thesis by (simp only: simp_thms)
qed

section \<open>Validation of a mixed change\<close>

lemma map_put_fresh: "k \<notin> fst ` set m \<Longrightarrow> map_put m k v = m @ [(k, v)]"
  unfolding map_put_def by (induction m) auto

lemma foldl_map_put_distinct:
  "distinct (map fst m @ map key cs) \<Longrightarrow>
   foldl (\<lambda>m c. map_put m (key c) (val c)) m cs = m @ map (\<lambda>c. (key c, val c)) cs"
proof (induction cs arbitrary: m)
  case Nil
  then show ?case by simp
next
  case (Cons c cs)
  from Cons.prems have fresh: "key c \<notin> fst ` set m" by auto
  from Cons.prems have "distinct (map fst (m @ [(key c, val c)]) @ map key cs)" by auto
  from Cons.IH[OF this] fresh show ?case by (simp add: map_put_fresh)
qed

lemma nameToColumn_distinct:
  "distinct (map ci_Name cols) \<Longrightarrow> nameToColumn cols = map (\<lambda>c. (ci_Name c, c)) cols"
  using foldl_map_put_distinct[of "[]" ci_Name cols "\<lambda>c. c"] by (simp add: nameToColumn_def)

lemma nameToColumn_lookup:
  assumes "distinct (map ci_Name cols)"
  shows "map_of (nameToColumn cols) name = Some n \<longleftrightarrow> n \<in> set cols \<and> ci_Name n = name"
proof -
  have "distinct (map fst (map (\<lambda>c. (ci_Name c, c)) cols))"
    using assms by (simp add: comp_def)
  then show ?thesis
    by (auto simp: nameToColumn_distinct[OF assms] map_of_eq_Some_iff)
qed

lemma oldColsNameToMap_loop_result:
  "oldColsNameToMap_loop (map oldColumn olds) m =
   Inr (foldl (\<lambda>m c. map_put m (ci_Name c) (oldColumnFields c)) m olds)"
  by (induction olds arbitrary: m)
     (simp_all add: oldColumn_fields oldColumn_index assertString_TfString)

lemma oldColumnFields_eq:
  "oldColumnFields c = oldColumnFields c' \<longleftrightarrow>
   ci_Name c = ci_Name c' \<and> ci_Type c = ci_Type c' \<and> ci_Comment c = ci_Comment c' \<and>
   ci_Nullable c = ci_Nullable c'"
  by (simp add: oldColumnFields_def)

lemma fieldValueUpdate_loop_result:
  assumes "set es \<subseteq> (\<lambda>c. (ci_Name c, oldColumnFields c)) ` C"
  shows "fieldValueUpdate_loop ToLower es newMap =
   Inr (if \<exists>c n. (ci_Name c, oldColumnFields c) \<in> set es \<and>
             map_of newMap (ci_Name c) = Some n \<and>
             (getColumnType ToLower (ci_Type c) \<noteq> getColumnType ToLower (ci_Type n) \<or>
              ci_Nullable c \<noteq> ci_Nullable n \<or> ci_Comment c \<noteq> ci_Comment n)
        then Some mixedChangeError else None)"
  using assms
proof (induction es)
  case Nil
  show ?case by simp
next
  case (Cons e es)
  from Cons.prems obtain c0 where e: "e = (ci_Name c0, oldColumnFields c0)" by auto
  from Cons.prems have sub: "set es \<subseteq> (\<lambda>c. (ci_Name c, oldColumnFields c)) ` C" by simp
  note IH = Cons.IH[OF sub]
  show ?case
  proof (cases "map_of newMap (ci_Name c0)")
    case None
    have "(\<exists>c n. (ci_Name c, oldColumnFields c) \<in> set (e # es) \<and>
             map_of newMap (ci_Name c) = Some n \<and>
             (getColumnType ToLower (ci_Type c) \<noteq> getColumnType ToLower (ci_Type n) \<or>
              ci_Nullable c \<noteq> ci_Nullable n \<or> ci_Comment c \<noteq> ci_Comment n)) =
          (\<exists>c n. (ci_Name c, oldColumnFields c) \<in> set es \<and>
             map_of newMap (ci_Name c) = Some n \<and>
             (getColumnType ToLower (ci_Type c) \<noteq> getColumnType ToLower (ci_Type n) \<or>
              ci_Nullable c \<noteq> ci_Nullable n \<or> ci_Comment c \<noteq> ci_Comment n))"
      using None e by auto
    with None e IH show ?thesis by simp
  next
    case (Some n0)
    show ?thesis
    proof (cases "getColumnType ToLower (ci_Type c0) \<noteq> getColumnType ToLower (ci_Type n0) \<or>
              ci_Nullable c0 \<noteq> ci_Nullable n0 \<or> ci_Comment c0 \<noteq> ci_Comment n0")
      case True
      then have "\<exists>c n. (ci_Name c, oldColumnFields c) \<in> set (e # es) \<and>
             map_of newMap (ci_Name c) = Some n \<and>
             (getColumnType ToLower (ci_Type c) \<noteq> getColumnType ToLower (ci_Type n) \<or>
              ci_Nullable c \<noteq> ci_Nullable n \<or> ci_Comment c \<noteq> ci_Comment n)"
        using Some e by (intro exI[of _ c0] exI[of _ n0]) simp
      moreover have "fieldValueUpdate_loop ToLower (e # es) newMap = Inr (Some mixedChangeError)"
        using True Some e by (auto simp: oldColumn_index assertString_TfString)
      ultimately show ?thesis by simp
    next
      case False
      have "(\<exists>c n. (ci_Name c, oldColumnFields c) \<in> set (e # es) \<and>
             map_of newMap (ci_Name c) = Some n \<and>
             (getColumnType ToLower (ci_Type c) \<noteq> getColumnType ToLower (ci_Type n) \<or>
              ci_Nullable c \<noteq> ci_Nullable n \<or> ci_Comment c \<noteq> ci_Comment n)) =
          (\<exists>c n. (ci_Name c, oldColumnFields c) \<in> set es \<and>
             map_of newMap (ci_Name c) = Some n \<and>
             (getColumnType ToLower (ci_Type c) \<noteq> getColumnType ToLower (ci_Type n) \<or>
              ci_Nullable c \<noteq> ci_Nullable n \<or> ci_Comment c \<noteq> ci_Comment n))"
        using False Some e by (auto simp: oldColumnFields_eq)
      moreover have "fieldValueUpdate_loop ToLower (e # es) newMap = fieldValueUpdate_loop ToLower es newMap"
        using False Some e by (simp add: oldColumn_index assertString_TfString)
      ultimately show ?thesis using IH by simp
    qed
  qed
qed

lemma map_visit_set:
  assumes "visits_each_key_once rng" and "distinct (map fst m)"
  shows "set (map_visit rng m) = set m"
proof -
  have keys: "set (rng (map fst m)) = fst ` set m"
    using assms by (simp add: visits_each_key_once_def)
  have "(\<lambda>k. (k, the (map_of m k))) ` fst ` set m = set m"
    using assms(2) by (force simp: image_iff)
  then show ?thesis
    by (simp add: map_visit_keys[OF assms] keys)
qed

lemma membership_validator_result:
  assumes "visits_each_key_once rng"
    and "distinct (map ci_Name olds)" and "distinct (map ci_Name news)"
  shows "assertNoColumnMembershipAndFieldValueUpdate ToLower rng (map oldColumn olds) news =
     Inr (if \<exists>old \<in> set olds. \<exists>new \<in> set news.
               ci_Name old = ci_Name new \<and>
               (getColumnType ToLower (ci_Type old) \<noteq> getColumnType ToLower (ci_Type new) \<or>
                ci_Nullable old \<noteq> ci_Nullable new \<or> ci_Comment old \<noteq> ci_Comment new)
          then Some mixedChangeError else None)"
proof -
  let ?M = "map (\<lambda>c. (ci_Name c, oldColumnFields c)) olds"
  have M: "oldColsNameToMap_loop (map oldColumn olds) [] = Inr ?M"
    using foldl_map_put_distinct[of "[]" ci_Name olds oldColumnFields] assms(2)
    by (simp add: oldColsNameToMap_loop_result)
  have dM: "distinct (map fst ?M)" using assms(2) by (simp add: comp_def)
  have es: "set (map_visit rng ?M) = (\<lambda>c. (ci_Name c, oldColumnFields c)) ` set olds"
    using map_visit_set[OF assms(1) dM] by simp
  then have sub: "set (map_visit rng ?M) \<subseteq> (\<lambda>c. (ci_Name c, oldColumnFields c)) ` set olds"
    by simp
  have iff: "(\<exists>c n. (ci_Name c, oldColumnFields c) \<in> set (map_visit rng ?M) \<and>
             map_of (nameToColumn news) (ci_Name c) = Some n \<and>
             (getColumnType ToLower (ci_Type c) \<noteq> getColumnType ToLower (ci_Type n) \<or>
              ci_Nullable c \<noteq> ci_Nullable n \<or> ci_Comment c \<noteq> ci_Comment n)) =
        (\<exists>old \<in> set olds. \<exists>new \<in> set news.
               ci_Name old = ci_Name new \<and>
               (getColumnType ToLower (ci_Type old) \<noteq> getColumnType ToLower (ci_Type new) \<or>
                ci_Nullable old \<noteq> ci_Nullable new \<or> ci_Comment old \<noteq> ci_Comment new))"
    (is "?L = ?R")
  proof
    assume ?L
    then obtain c n where c: "(ci_Name c, oldColumnFields c) \<in> set (map_visit rng ?M)"
      and n: "map_of (nameToColumn news) (ci_Name c) = Some n"
      and d: "getColumnType ToLower (ci_Type c) \<noteq> getColumnType ToLower (ci_Type n) \<or>
              ci_Nullable c \<noteq> ci_Nullable n \<or> ci_Comment c \<noteq> ci_Comment n"
      by blast
    from c es obtain old where old: "old \<in> set olds" "oldColumnFields c = oldColumnFields old"
      by auto
    from n have new: "n \<in> set news" "ci_Name n = ci_Name c"
      by (simp_all add: nameToColumn_lookup[OF assms(3)])
    from old(2) have "ci_Name c = ci_Name old" "ci_Type c = ci_Type old"
      "ci_Comment c = ci_Comment old" "ci_Nullable c = ci_Nullable old"
      by (simp_all add: oldColumnFields_eq)
    with d new old(1) show ?R by (intro bexI[of _ old] bexI[of _ n]) auto
  next
    assume ?R
    then obtain old new where o: "old \<in> set olds" and n: "new \<in> set news"
      and e: "ci_Name old = ci_Name new"
      and d: "getColumnType ToLower (ci_Type old) \<noteq> getColumnType ToLower (ci_Type new) \<or>
                ci_Nullable old \<noteq> ci_Nullable new \<or> ci_Comment old \<noteq> ci_Comment new"
      by blast
    from o es have "(ci_Name old, oldColumnFields old) \<in> set (map_visit rng ?M)" by auto
    moreover from n e have "map_of (nameToColumn news) (ci_Name old) = Some new"
      by (simp add: nameToColumn_lookup[OF assms(3)])
    ultimately show ?L using d by blast
  qed
  show ?thesis
    unfolding assertNoColumnMembershipAndFieldValueUpdate_def M
    by (simp only: sum.case Let_def fieldValueUpdate_loop_result[OF sub] iff)
qed

text \<open>
  Claim C5. When the old and the new column counts differ, the validation is
  \<open>assertNoColumnMembershipAndFieldValueUpdate\<close>. On old columns of the form the
  plan hands over, with column names unique on each side, it fails, with the error
  of a mixed change, if and only if some column name present on both sides has a
  different normalised type, a different nullability or a different comment on the
  two sides; when no shared name differs in these it returns no error. This holds
  for every order in which the map of old columns is visited, and whatever
  \<open>strings.ToLower\<close> returns.
\<close>

theorem assertNoColumnMembershipAndFieldValueUpdate_iff:
  assumes "visits_each_key_once rng"
    and "distinct (map ci_Name olds)" and "distinct (map ci_Name (ColumnInfos newTable))"
    and "length olds \<noteq> length (ColumnInfos newTable)"
  shows "columnChangesCustomizeDiff ToLower rng (TfList (map oldColumn olds)) newTable =
     assertNoColumnMembershipAndFieldValueUpdate ToLower rng (map oldColumn olds)
       (ColumnInfos newTable) \<and>
   assertNoColumnMembershipAndFieldValueUpdate ToLower rng (map oldColumn olds)
       (ColumnInfos newTable) =
     Inr (if \<exists>old \<in> set olds. \<exists>new \<in> set (ColumnInfos newTable).
               ci_Name old = ci_Name new \<and>
               (getColumnType ToLower (ci_Type old) \<noteq> getColumnType ToLower (ci_Type new) \<or>
                ci_Nullable old \<noteq> ci_Nullable new \<or> ci_Comment old \<noteq> ci_Comment new)
          then Some mixedChangeError else None)"
  using assms(4) membership_validator_result[OF assms(1-3)]
  by (simp add: columnChangesCustomizeDiff_def assertList_def)

theorem assertNoColumnMembershipAndFieldValueUpdate_iff_witness:
  "visits_each_key_once id \<and>
   assertNoColumnMembershipAndFieldValueUpdate asciiToLower id
     [oldColumn ((exampleColumn ''a'' ''int'')\<lparr>ci_Nullable := False\<rparr>)]
     [(exampleColumn ''a'' ''bigint'')\<lparr>ci_Nullable := False\<rparr>, exampleColumn ''b'' ''string''] =
     Inr (Some mixedChangeError) \<and>
   assertNoColumnMembershipAndFieldValueUpdate asciiToLower id
     [oldColumn ((exampleColumn ''a'' ''Integer'')\<lparr>ci_Nullable := False\<rparr>)]
     [(exampleColumn ''a'' ''int'')\<lparr>ci_Nullable := False\<rparr>, exampleColumn ''b'' ''string''] =
     Inr None"
proof -
  let ?o1 = "(exampleColumn ''a'' ''int'')\<lparr>ci_Nullable := False\<rparr>"
  let ?o2 = "(exampleColumn ''a'' ''Integer'')\<lparr>ci_Nullable := False\<rparr>"
  let ?t1 = "exampleTable\<lparr>ColumnInfos :=
     [(exampleColumn ''a'' ''bigint'')\<lparr>ci_Nullable := False\<rparr>, exampleColumn ''b'' ''string'']\<rparr>"
  let ?t2 = "exampleTable\<lparr>ColumnInfos :=
     [(exampleColumn ''a'' ''int'')\<lparr>ci_Nullable := False\<rparr>, exampleColumn ''b'' ''string'']\<rparr>"
  have v: "visits_each_key_once id" by (simp add: visits_each_key_once_def)
  have d1: "distinct (map ci_Name [?o1])" and d2: "distinct (map ci_Name [?o2])" by simp_all
  have n1: "distinct (map ci_Name (ColumnInfos ?t1))"
    and n2: "distinct (map ci_Name (ColumnInfos ?t2))"
    by (simp_all add: exampleColumn_def)
  have l1: "length [?o1] \<noteq> length (ColumnInfos ?t1)"
    and l2: "length [?o2] \<noteq> length (ColumnInfos ?t2)" by simp_all
  have e: "getColumnType asciiToLower ''Integer'' = ''int''" "getColumnType asciiToLower ''int'' = ''int''"
    "getColumnType asciiToLower ''bigint'' = ''bigint''" "getColumnType asciiToLower ''string'' = ''string''"
    by code_simp+
  from assertNoColumnMembershipAndFieldValueUpdate_iff[OF v d1 n1 l1, where ToLower = asciiToLower]
       assertNoColumnMembershipAndFieldValueUpdate_iff[OF v d2 n2 l2, where ToLower = asciiToLower] v
  show ?thesis by (simp add: exampleColumn_def e)
qed

section \<open>Managed keys after the customisation of the plan\<close>

text \<open>
  Where the managed keys are exempted from removal: the loop of \<open>CustomizeDiff\<close>
  leaves every managed key of the old map in the new map. When the desired
  property map is its result and the previous map is the old map it ran on, no
  managed key is among the keys \<open>diff\<close> removes.
\<close>

lemma map_put_keys: "fst ` set (map_put m k v) = insert k (fst ` set m)"
  by (simp add: map_put_def AList.dom_update)

lemma customizeDiffProperties_keeps_managed:
  assumes "key \<in> fst ` set oldProps" and "sqlTableIsManagedProperty key"
  shows "map_of (customizeDiffProperties oldProps newProps options) key \<noteq> None"
proof -
  define f :: "(string \<times> string) list \<Rightarrow> string \<times> string \<Rightarrow> (string \<times> string) list"
    where "f = (\<lambda>newProps (key, val).
          if map_of newProps key = None
          then (let newProps =
                      (if map_of options key \<noteq> None then map_put newProps key val
                       else newProps)
                in if sqlTableIsManagedProperty key \<or> prefix ''option.'' key
                   then map_put newProps key val
                   else newProps)
          else newProps)"
  have step: "fst ` set m \<subseteq> fst ` set (f m e)" for m e
    by (cases e) (auto simp: f_def Let_def map_put_keys)
  have mono: "fst ` set m \<subseteq> fst ` set (foldl f m es)" for m es
  proof (induction es arbitrary: m)
    case Nil
    show ?case by simp
  next
    case (Cons e es)
    have "fst ` set m \<subseteq> fst ` set (f m e)" by (rule step)
    also have "\<dots> \<subseteq> fst ` set (foldl f (f m e) es)" by (rule Cons.IH)
    finally show ?case by simp
  qed
  have visit: "key \<in> fst ` set (f m e)" if "fst e = key" for m e
    using that assms(2)
    by (cases e) (auto simp: f_def Let_def map_put_keys map_of_eq_None_iff)
  have "key \<in> fst ` set (foldl f m oldProps)" for m
    using assms(1)
  proof (induction oldProps arbitrary: m)
    case Nil
    then show ?case by simp
  next
    case (Cons e es)
    show ?case
    proof (cases "fst e = key")
      case True
      then have "key \<in> fst ` set (f m e)" by (rule visit)
      with mono[of "f m e" es] have "key \<in> fst ` set (foldl f (f m e) es)" by blast
      then show ?thesis by simp
    next
      case False
      with Cons.prems have "key \<in> fst ` set es" by auto
      from Cons.IH[OF this] show ?thesis by simp
    qed
  qed
  then show ?thesis
    by (simp add: customizeDiffProperties_def f_def map_of_eq_None_iff)
qed

lemma diff_removals_after_customizeDiff:
  assumes "Properties oldti = Some oldProps"
    and "Properties ti = Some (customizeDiffProperties oldProps newProps options)"
    and "sqlTableIsManagedProperty key"
  shows "key \<notin> set [k. (k, v) \<leftarrow> map_range (Properties oldti),
                         \<not> map_has (Properties ti) k]"
proof
  assume "key \<in> set [k. (k, v) \<leftarrow> map_range (Properties oldti),
                        \<not> map_has (Properties ti) k]"
  then have old: "key \<in> fst ` set oldProps" and new: "\<not> map_has (Properties ti) key"
    using assms(1) by (force simp: map_range_def split: if_splits)+
  from customizeDiffProperties_keeps_managed[OF old assms(3), of newProps options] new
  show False by (simp add: assms(2) map_has_def map_range_def)
qed

section \<open>Identifiers without backticks\<close>

text \<open>
  Claim C9, at inputs the code fails on. A column is named \<open>my col\<close>. In the
  \<open>ADD COLUMN\<close> statement of \<open>diff\<close> the new column is wrapped in backticks and the
  column after \<open>AFTER\<close> is written as it is; in the statement of
  \<open>buildTableCreateStatement\<close> the column definition is wrapped and the names in
  \<open>PARTITIONED BY\<close> and in \<open>CLUSTER BY\<close> are written as they are.
\<close>

theorem identifiers_not_wrapped:
  "diff id
     (exampleTable\<lparr>ColumnInfos := [exampleColumn ''my col'' ''int'', exampleColumn ''c'' ''int'']\<rparr>)
     (exampleTable\<lparr>ColumnInfos := [exampleColumn ''my col'' ''int'']\<rparr>) =
   Inr ([''ALTER TABLE `c`.`s`.`n` ADD COLUMN `c` int AFTER my col''], None) \<and>
   buildTableCreateStatement
     (exampleTable\<lparr>ColumnInfos := [exampleColumn ''my col'' ''int''],
                   Partitions := [''my col'']\<rparr>) =
   ''CREATE TABLE `c`.`s`.`n` (`my col` int)'' @ [newline] @ ''PARTITIONED BY (my col);'' \<and>
   buildTableCreateStatement
     (exampleTable\<lparr>ColumnInfos := [exampleColumn ''my col'' ''int''],
                   ClusterKeys := Some [''my col'']\<rparr>) =
   ''CREATE TABLE `c`.`s`.`n` (`my col` int)'' @ [newline] @ ''CLUSTER BY (my col);''"
  by code_simp

end
